theory Spec2Isabelle
  imports
    Main
    "HOL-Library.Sublist"
    "HOL-Library.List_Lexorder"
    "HOL-Library.Option_ord"
    "HOL-Library.Product_Lexorder"
begin

section \<open>Texts and the platform\<close>

text \<open>
  A text is the list of its code points, so that its length is the number of its
  characters and two texts compare as Python compares them. \<open>str\<close> writes an ASCII
  text.
\<close>

type_synonym pystr = "nat list"

definition str :: "string \<Rightarrow> pystr" where
  "str s = map of_char s"

text \<open>
  What the views take from the language runtime, the database and the web framework is
  not code of the repository and is a parameter of the model:
  \<^item> \<open>isdigit_cp\<close>, \<open>isspace_cp\<close>: the characters that \<open>str.isdigit\<close> and
    \<open>str.strip\<close> count as digits and as white space;
  \<^item> \<open>str_lower\<close>: \<open>str.lower\<close>;
  \<^item> \<open>str_int\<close>: \<open>int(s)\<close> on a text, \<open>None\<close> where it raises \<open>ValueError\<close>;
  \<^item> \<open>like_fold\<close>: the case folding under which the database compares two characters
    in the lookups \<open>iexact\<close>, \<open>istartswith\<close> and \<open>icontains\<close>;
  \<^item> \<open>clean_ipv6_address\<close>: the normal form of an IPv6 address, \<open>None\<close> where it is
    not one;
  \<^item> \<open>url_reverse\<close>: the path of a URL name that takes no argument, \<open>None\<close> where the
    project has no such name.
\<close>

record platform =
  isdigit_cp :: "nat \<Rightarrow> bool"
  isspace_cp :: "nat \<Rightarrow> bool"
  str_lower :: "pystr \<Rightarrow> pystr"
  str_int :: "pystr \<Rightarrow> int option"
  like_fold :: "nat \<Rightarrow> nat"
  clean_ipv6_address :: "pystr \<Rightarrow> pystr option"
  url_reverse :: "pystr \<Rightarrow> pystr option"

definition strip :: "platform \<Rightarrow> pystr \<Rightarrow> pystr" where
  "strip P s = rev (dropWhile (isspace_cp P) (rev (dropWhile (isspace_cp P) s)))"

definition isdigit :: "platform \<Rightarrow> pystr \<Rightarrow> bool" where
  "isdigit P s = (s \<noteq> [] \<and> list_all (isdigit_cp P) s)"

definition lower :: "platform \<Rightarrow> pystr \<Rightarrow> pystr" where
  "lower P s = str_lower P s"

text \<open>\<open>q in s\<close>: the text \<open>q\<close> occurs in \<open>s\<close> as a contiguous run.\<close>

fun str_contains :: "pystr \<Rightarrow> pystr \<Rightarrow> bool" where
  "str_contains [] q = (q = [])"
| "str_contains (c # cs) q = (prefix q (c # cs) \<or> str_contains cs q)"

text \<open>\<open>s.startswith(q)\<close>.\<close>

definition startswith_str :: "pystr \<Rightarrow> pystr \<Rightarrow> bool" where
  "startswith_str s q = prefix q s"

text \<open>\<open>int(request.GET.get(key, default))\<close> for a parameter that may not be sent.\<close>

datatype error = ValueError | NegativeIndexing | Http404 | RecursionDepth | NoReverseMatch

definition int_param :: "platform \<Rightarrow> int \<Rightarrow> pystr option \<Rightarrow> error + int" where
  "int_param P dflt param =
     (case param of
        None \<Rightarrow> Inr dflt
      | Some s \<Rightarrow> (case str_int P s of None \<Rightarrow> Inl ValueError | Some n \<Rightarrow> Inr n))"

subsection \<open>A platform for the worked examples\<close>

text \<open>
  The examples are ASCII texts. This platform treats the ASCII range as Python and the
  default database do: the digits are \<open>0\<close> to \<open>9\<close>, the white space is the ten ASCII
  characters that \<open>str.strip\<close> removes, lowering and folding map \<open>A\<close>..\<open>Z\<close> to
  \<open>a\<close>..\<open>z\<close>, and an integer is an optional sign and digits, single underscores
  between digits allowed, with white space around. It has no IPv6 addresses and no URL
  names.
\<close>

definition ascii_digit :: "nat \<Rightarrow> bool" where
  "ascii_digit c = (48 \<le> c \<and> c \<le> 57)"

definition ascii_space :: "nat \<Rightarrow> bool" where
  "ascii_space c = ((9 \<le> c \<and> c \<le> 13) \<or> (28 \<le> c \<and> c \<le> 32))"

definition ascii_lower :: "nat \<Rightarrow> nat" where
  "ascii_lower c = (if 65 \<le> c \<and> c \<le> 90 then c + 32 else c)"

fun ascii_digits :: "bool \<Rightarrow> int \<Rightarrow> pystr \<Rightarrow> int option" where
  "ascii_digits after_digit acc [] = (if after_digit then Some acc else None)"
| "ascii_digits after_digit acc (c # cs) =
     (if ascii_digit c then ascii_digits True (acc * 10 + int (c - 48)) cs
      else if c = 95 \<and> after_digit then ascii_digits False acc cs
      else None)"

definition ascii_int :: "pystr \<Rightarrow> int option" where
  "ascii_int s =
     (case rev (dropWhile ascii_space (rev (dropWhile ascii_space s))) of
        [] \<Rightarrow> None
      | c # cs \<Rightarrow>
          if c = 45 then map_option uminus (ascii_digits False 0 cs)
          else if c = 43 then ascii_digits False 0 cs
          else ascii_digits False 0 (c # cs))"

definition ascii :: platform where
  "ascii =
     \<lparr>isdigit_cp = ascii_digit, isspace_cp = ascii_space, str_lower = map ascii_lower,
      str_int = ascii_int, like_fold = ascii_lower, clean_ipv6_address = (\<lambda>s. None),
      url_reverse = (\<lambda>s. None)\<rparr>"

section \<open>The voter table\<close>

datatype json = JStr pystr | JNum int

record voter =
  pk :: nat
  category_id :: nat
  serial :: "pystr option"
  name :: "pystr option"
  voter_no :: "pystr option"
  father :: "pystr option"
  mother :: "pystr option"
  profession :: "pystr option"
  dob :: "pystr option"
  address :: "pystr option"
  gender :: pystr
  status :: pystr
  source_file :: pystr
  extra_data :: "(pystr \<times> json) list"
  search_text :: "pystr option"
  created_at :: nat

subsection \<open>Field lookups of the query language\<close>

text \<open>
  A lookup on a column that is NULL is not true. \<open>exact\<close> and \<open>startswith\<close> are used
  with queries of digits only and compare the stored text as it is; the \<open>i\<close> lookups
  compare after the database's folding.
\<close>

definition fold_str :: "platform \<Rightarrow> pystr \<Rightarrow> pystr" where
  "fold_str P s = map (like_fold P) s"

definition exact :: "pystr option \<Rightarrow> pystr \<Rightarrow> bool" where
  "exact f x = (case f of None \<Rightarrow> False | Some s \<Rightarrow> s = x)"

definition startswith :: "pystr option \<Rightarrow> pystr \<Rightarrow> bool" where
  "startswith f x = (case f of None \<Rightarrow> False | Some s \<Rightarrow> startswith_str s x)"

definition iexact :: "platform \<Rightarrow> pystr option \<Rightarrow> pystr \<Rightarrow> bool" where
  "iexact P f x = (case f of None \<Rightarrow> False | Some s \<Rightarrow> fold_str P s = fold_str P x)"

definition istartswith :: "platform \<Rightarrow> pystr option \<Rightarrow> pystr \<Rightarrow> bool" where
  "istartswith P f x =
     (case f of None \<Rightarrow> False | Some s \<Rightarrow> startswith_str (fold_str P s) (fold_str P x))"

definition icontains :: "platform \<Rightarrow> pystr option \<Rightarrow> pystr \<Rightarrow> bool" where
  "icontains P f x =
     (case f of None \<Rightarrow> False | Some s \<Rightarrow> str_contains (fold_str P s) (fold_str P x))"

section \<open>Relevance search\<close>

text \<open>
  \<open>qs[:k]\<close> on a query set: the first \<open>k\<close> rows, and an error for a negative \<open>k\<close>.
\<close>

definition slice_upto :: "'a list \<Rightarrow> int \<Rightarrow> error + 'a list" where
  "slice_upto rows k = (if k < 0 then Inl NegativeIndexing else Inr (take (nat k) rows))"

subsection \<open>Numeric queries\<close>

definition numeric_relevance :: "platform \<Rightarrow> pystr \<Rightarrow> voter \<Rightarrow> int" where
  "numeric_relevance P query v =
     (if exact (voter_no v) query then 100
      else if startswith (voter_no v) query then 90
      else if icontains P (voter_no v) query then 70
      else 50)"

text \<open>
  \<open>order_by('-relevance', 'voter_no')\<close>: rows that agree on both keys keep the order
  of the table.
\<close>

definition numeric_key :: "platform \<Rightarrow> pystr \<Rightarrow> voter \<Rightarrow> int \<times> pystr option" where
  "numeric_key P query v = (- numeric_relevance P query v, voter_no v)"

definition numeric_queryset :: "platform \<Rightarrow> pystr \<Rightarrow> voter list \<Rightarrow> voter list" where
  "numeric_queryset P query store =
     sort_key (numeric_key P query) (filter (\<lambda>v. icontains P (voter_no v) query) store)"

subsection \<open>Text queries, authenticated endpoint\<close>

definition text_filter :: "platform \<Rightarrow> pystr \<Rightarrow> voter \<Rightarrow> bool" where
  "text_filter P query v =
     (icontains P (name v) query \<or> icontains P (father v) query \<or>
      icontains P (mother v) query \<or> icontains P (voter_no v) query \<or>
      icontains P (address v) query \<or> icontains P (search_text v) (lower P query))"

definition text_relevance :: "platform \<Rightarrow> pystr \<Rightarrow> voter \<Rightarrow> int" where
  "text_relevance P query v =
     (if iexact P (name v) query then 100
      else if istartswith P (name v) query then 90
      else if icontains P (name v) query then 80
      else if icontains P (voter_no v) query then 75
      else if istartswith P (father v) query then 70
      else if istartswith P (mother v) query then 70
      else if icontains P (father v) query then 60
      else if icontains P (mother v) query then 60
      else if icontains P (address v) query then 50
      else 40)"

text \<open>
  \<open>order_by('-relevance', 'name')\<close>; a NULL name sorts before every text, as it does
  on the default database.
\<close>

definition text_key :: "platform \<Rightarrow> pystr \<Rightarrow> voter \<Rightarrow> int \<times> pystr option" where
  "text_key P query v = (- text_relevance P query v, name v)"

definition text_queryset :: "platform \<Rightarrow> pystr \<Rightarrow> voter list \<Rightarrow> voter list" where
  "text_queryset P query store =
     sort_key (text_key P query) (filter (text_filter P query) store)"

subsection \<open>Text queries, public endpoint\<close>

definition public_text_filter :: "platform \<Rightarrow> pystr \<Rightarrow> voter \<Rightarrow> bool" where
  "public_text_filter P query v =
     (icontains P (name v) query \<or> icontains P (father v) query \<or>
      icontains P (mother v) query \<or> icontains P (voter_no v) query)"

definition public_text_relevance :: "platform \<Rightarrow> pystr \<Rightarrow> voter \<Rightarrow> int" where
  "public_text_relevance P query v =
     (if iexact P (name v) query then 100
      else if istartswith P (name v) query then 90
      else if icontains P (name v) query then 80
      else if icontains P (voter_no v) query then 75
      else if istartswith P (father v) query then 70
      else if istartswith P (mother v) query then 70
      else 40)"

definition public_text_key :: "platform \<Rightarrow> pystr \<Rightarrow> voter \<Rightarrow> int \<times> pystr option" where
  "public_text_key P query v = (- public_text_relevance P query v, name v)"

definition public_text_queryset :: "platform \<Rightarrow> pystr \<Rightarrow> voter list \<Rightarrow> voter list" where
  "public_text_queryset P query store =
     sort_key (public_text_key P query) (filter (public_text_filter P query) store)"

subsection \<open>The two search endpoints\<close>

text \<open>
  The JSON answer: the rows found (each row stands for the dictionary the view builds
  from it; the highlighted renderings are left out), their number, the stripped query
  and, when the search ran, the \<open>has_more\<close> flag. The parameters are \<open>q\<close> (empty
  when it is not sent) and \<open>limit\<close> as the text that was sent, if one was. The query is
  stripped first, then the limit is read, then the length of the query is tested, as in
  the source.
\<close>

record search_response =
  voters :: "voter list"
  count :: nat
  query_echo :: pystr
  has_more :: "bool option"

definition api_search_voters ::
  "platform \<Rightarrow> pystr \<Rightarrow> pystr option \<Rightarrow> voter list \<Rightarrow> error + search_response" where
  "api_search_voters P q_param limit_param store =
     (let query = strip P q_param
      in case int_param P 15 limit_param of
           Inl e \<Rightarrow> Inl e
         | Inr n \<Rightarrow>
             let limit = min n 50
             in if length query < 1
                then Inr \<lparr>voters = [], count = 0, query_echo = query, has_more = None\<rparr>
                else
                  (case slice_upto
                          (if isdigit P query then numeric_queryset P query store
                           else text_queryset P query store)
                          limit of
                     Inl e \<Rightarrow> Inl e
                   | Inr results \<Rightarrow>
                       Inr \<lparr>voters = results, count = length results, query_echo = query,
                            has_more = Some (int (length results) = limit)\<rparr>))"

definition public_api_search_voters ::
  "platform \<Rightarrow> pystr \<Rightarrow> pystr option \<Rightarrow> voter list \<Rightarrow> error + search_response" where
  "public_api_search_voters P q_param limit_param store =
     (let query = strip P q_param
      in case int_param P 10 limit_param of
           Inl e \<Rightarrow> Inl e
         | Inr n \<Rightarrow>
             let limit = min n 20
             in if length query < 2
                then Inr \<lparr>voters = [], count = 0, query_echo = query, has_more = None\<rparr>
                else
                  (case slice_upto
                          (if isdigit P query then numeric_queryset P query store
                           else public_text_queryset P query store)
                          limit of
                     Inl e \<Rightarrow> Inl e
                   | Inr results \<Rightarrow>
                       Inr \<lparr>voters = results, count = length results, query_echo = query,
                            has_more = Some (int (length results) = limit)\<rparr>))"

text \<open>Rows for the worked examples: a voter with a name, a number, a father and an address.\<close>

definition sample_voter ::
  "nat \<Rightarrow> string \<Rightarrow> string \<Rightarrow> string option \<Rightarrow> string option \<Rightarrow> voter" where
  "sample_voter i nm no fa ad =
     \<lparr>pk = i, category_id = 1, serial = None, name = Some (str nm), voter_no = Some (str no),
      father = map_option str fa, mother = None, profession = None, dob = None,
      address = map_option str ad, gender = str ''unknown'', status = str ''present'',
      source_file = str ''a.xlsx'', extra_data = [], search_text = None, created_at = i\<rparr>"

section \<open>The category tree\<close>

record category =
  cid :: nat
  cname :: pystr
  code :: "pystr option"
  parent :: "nat option"
  full_path :: pystr
  has_excel :: bool
  level :: nat

text \<open>
  \<open>Category.objects.filter(parent=category)\<close>: the rows whose parent is the given node,
  in the model's default order (\<open>full_path\<close>).
\<close>

definition children :: "category list \<Rightarrow> category \<Rightarrow> category list" where
  "children store c = sort_key full_path (filter (\<lambda>x. parent x = Some (cid c)) store)"

text \<open>
  The loop over the children: each child's id, then the child's own descendants. A
  recursive call that does not return makes the loop not return.
\<close>

fun collect :: "(category \<Rightarrow> nat list option) \<Rightarrow> category list \<Rightarrow> nat list option" where
  "collect recurse [] = Some []"
| "collect recurse (child # rest) =
     (case recurse child of
        None \<Rightarrow> None
      | Some below \<Rightarrow>
          (case collect recurse rest of
             None \<Rightarrow> None
           | Some others \<Rightarrow> Some (cid child # below @ others)))"

text \<open>
  The recursion has no base case of its own: it stops where a node has no children. The
  first argument bounds the depth of the calls; \<open>None\<close> is a recursion that did not
  come back within that depth.
\<close>

fun get_category_descendants :: "nat \<Rightarrow> category list \<Rightarrow> category \<Rightarrow> nat list option" where
  "get_category_descendants 0 store c = None"
| "get_category_descendants (Suc depth) store c =
     collect (get_category_descendants depth store) (children store c)"

text \<open>
  The scope of a node as the list and detail views build it: the descendants, then the
  node itself.
\<close>

definition resolve_scope :: "nat \<Rightarrow> category list \<Rightarrow> category \<Rightarrow> nat list option" where
  "resolve_scope depth store c =
     map_option (\<lambda>descendant_ids. descendant_ids @ [cid c])
       (get_category_descendants depth store c)"

text \<open>The child links of the table: from a node's id to the ids of its children.\<close>

definition child_links :: "category list \<Rightarrow> (nat \<times> nat) set" where
  "child_links store = {(p, cid c) | p c. c \<in> set store \<and> parent c = Some p}"

definition node :: "nat \<Rightarrow> string \<Rightarrow> nat option \<Rightarrow> string \<Rightarrow> nat \<Rightarrow> category" where
  "node i nm p path lv =
     \<lparr>cid = i, cname = str nm, code = None, parent = p, full_path = str path,
      has_excel = False, level = lv\<rparr>"

definition abc_tree :: "category list" where
  "abc_tree = [node 1 ''A'' None ''A'' 0, node 2 ''B'' (Some 1) ''A/B'' 1,
               node 3 ''C'' (Some 2) ''A/B/C'' 2]"

definition deep_chain :: "category list" where
  "deep_chain = [node 1 ''a'' None ''a'' 0, node 2 ''b'' (Some 1) ''a/b'' 1,
                 node 3 ''c'' (Some 2) ''a/b/c'' 2, node 4 ''d'' (Some 3) ''a/b/c/d'' 3,
                 node 5 ''e'' (Some 4) ''a/b/c/d/e'' 4, node 6 ''f'' (Some 5) ''a/b/c/d/e/f'' 5]"

section \<open>The status audit trail\<close>

text \<open>
  The client address of a request: the first entry of the forwarded-for header when the
  header is there and not empty, else the connection's address, else \<open>unknown\<close>.
\<close>

definition get_client_ip :: "platform \<Rightarrow> pystr option \<Rightarrow> pystr option \<Rightarrow> pystr" where
  "get_client_ip P x_forwarded_for remote_addr =
     (case x_forwarded_for of
        Some h \<Rightarrow>
          if h \<noteq> [] then strip P (takeWhile (\<lambda>c. c \<noteq> 44) h)
          else (case remote_addr of None \<Rightarrow> str ''unknown'' | Some a \<Rightarrow> a)
      | None \<Rightarrow> (case remote_addr of None \<Rightarrow> str ''unknown'' | Some a \<Rightarrow> a))"

record audit =
  voter_id :: nat
  changed_by :: "nat option"
  old_status :: pystr
  new_status :: pystr
  remarks :: "pystr option"
  changed_at :: nat
  ip_address :: "pystr option"

record db =
  voter_rows :: "voter list"
  audit_rows :: "audit list"

text \<open>
  What the address column stores of a value: an address with a colon in its IPv6 normal
  form when it has one, and NULL for the empty text.
\<close>

definition ip_column :: "platform \<Rightarrow> pystr \<Rightarrow> pystr option" where
  "ip_column P ip =
     (let prepared =
            (if ip \<noteq> [] \<and> 58 \<in> set ip
             then (case clean_ipv6_address P ip of None \<Rightarrow> ip | Some a \<Rightarrow> a)
             else ip)
      in if prepared = [] then None else Some prepared)"

definition STATUS_CHOICES :: "(pystr \<times> pystr) list" where
  "STATUS_CHOICES =
     [(str ''present'', str ''Present''), (str ''absent'', str ''Absent''),
      (str ''dead'', str ''Dead'')]"

definition get_status_display :: "voter \<Rightarrow> pystr" where
  "get_status_display v =
     (case map_of STATUS_CHOICES (status v) of None \<Rightarrow> status v | Some label \<Rightarrow> label)"

datatype msg_level = Error | Success | Info

datatype redirect = VoterDetail nat | Url pystr

text \<open>\<open>get_object_or_404(Voter, pk=pk)\<close>.\<close>

definition get_voter :: "nat \<Rightarrow> voter list \<Rightarrow> error + voter" where
  "get_voter key rows =
     (case find (\<lambda>v. pk v = key) rows of None \<Rightarrow> Inl Http404 | Some v \<Rightarrow> Inr v)"

text \<open>
  \<open>voter.save(update_fields=['status'])\<close>: the row of that key gets the new status and
  keeps its other columns.
\<close>

definition save_status :: "nat \<Rightarrow> pystr \<Rightarrow> voter list \<Rightarrow> voter list" where
  "save_status key s rows = map (\<lambda>r. if pk r = key then r\<lparr>status := s\<rparr> else r) rows"

text \<open>
  \<open>redirect(to)\<close> on a text: a relative URL is taken as it is; a URL name is replaced by
  its path; any other text is taken as a URL if it has a slash or a dot in it, and
  raises otherwise.
\<close>

definition resolve_url :: "platform \<Rightarrow> pystr \<Rightarrow> error + pystr" where
  "resolve_url P to =
     (if startswith_str to (str ''./'') \<or> startswith_str to (str ''../'') then Inr to
      else (case url_reverse P to of
              Some path \<Rightarrow> Inr path
            | None \<Rightarrow> if 47 \<notin> set to \<and> 46 \<notin> set to then Inl NoReverseMatch else Inr to))"

definition after_update :: "platform \<Rightarrow> nat \<Rightarrow> pystr option \<Rightarrow> error + redirect" where
  "after_update P key next_param =
     (let next_url = (case next_param of None \<Rightarrow> [] | Some s \<Rightarrow> s)
      in if next_url \<noteq> [] then map_sum id Url (resolve_url P next_url)
         else Inr (VoterDetail key))"

text \<open>
  The view: the voter's key, the posted \<open>status\<close>, \<open>remarks\<close> and \<open>next\<close>, the user,
  the two address headers, the time, and the tables. Its result is the answer (a
  redirect, or what was raised), the message it queued, and the tables as it left them:
  what it wrote before an error is raised stays written.
\<close>

record status_result =
  response :: "error + redirect"
  queued :: "(msg_level \<times> pystr) option"
  tables :: db

definition update_voter_status ::
  "platform \<Rightarrow> nat \<Rightarrow> pystr option \<Rightarrow> pystr option \<Rightarrow> pystr option \<Rightarrow> nat \<Rightarrow>
   pystr option \<Rightarrow> pystr option \<Rightarrow> nat \<Rightarrow> db \<Rightarrow> status_result" where
  "update_voter_status P key status_param remarks_param next_param user x_forwarded_for
       remote_addr now d =
     (case get_voter key (voter_rows d) of
        Inl e \<Rightarrow> \<lparr>response = Inl e, queued = None, tables = d\<rparr>
      | Inr v \<Rightarrow>
          let requested = strip P (case status_param of None \<Rightarrow> [] | Some s \<Rightarrow> s);
              note = strip P (case remarks_param of None \<Rightarrow> [] | Some s \<Rightarrow> s);
              valid_statuses = map fst STATUS_CHOICES
          in if requested \<notin> set valid_statuses
             then \<lparr>response = Inr (VoterDetail key),
                   queued = Some (Error, str ''Invalid status value.''), tables = d\<rparr>
             else if status v \<noteq> requested
             then \<lparr>response = after_update P key next_param,
                   queued =
                     Some (Success,
                           str ''Voter status updated to ''
                             @ get_status_display (v\<lparr>status := requested\<rparr>) @ str ''.''),
                   tables =
                     d\<lparr>audit_rows := audit_rows d @
                          [\<lparr>voter_id = key, changed_by = Some user,
                            old_status = status v, new_status = requested,
                            remarks = Some note, changed_at = now,
                            ip_address =
                              ip_column P (get_client_ip P x_forwarded_for remote_addr)\<rparr>],
                        voter_rows := save_status key requested (voter_rows d)\<rparr>\<rparr>
             else \<lparr>response = after_update P key next_param,
                   queued = Some (Info, str ''Status unchanged.''), tables = d\<rparr>)"

definition status_example :: db where
  "status_example =
     \<lparr>voter_rows = [sample_voter 4 ''Karim'' ''123'' None None,
                     sample_voter 5 ''Nadia'' ''1230'' None None],
      audit_rows = []\<rparr>"

section \<open>The rate limiter\<close>

text \<open>
  The cache holds, under a key, a value and the time at which it expires. \<open>get\<close>
  answers the default for a key that is absent or expired; \<open>set\<close> stores a value that
  expires \<open>timeout\<close> seconds from now.
\<close>

type_synonym cache = "pystr \<Rightarrow> (nat \<times> nat) option"

definition cache_get :: "cache \<Rightarrow> nat \<Rightarrow> pystr \<Rightarrow> nat \<Rightarrow> nat" where
  "cache_get c now key dflt =
     (case c key of
        None \<Rightarrow> dflt
      | Some (v, expires) \<Rightarrow> if expires \<le> now then dflt else v)"

definition cache_set :: "cache \<Rightarrow> nat \<Rightarrow> pystr \<Rightarrow> nat \<Rightarrow> nat \<Rightarrow> cache" where
  "cache_set c now key v timeout = c(key \<mapsto> (v, now + timeout))"

text \<open>
  A wrapped view answers either the rate-limited response (status 429 with its
  \<open>retry_after\<close>) or what the view itself answers. The wrappers take the limit, the
  view's name, the view's answer, the two address headers, the time and the cache; they
  work out the client address as \<open>get_client_ip\<close> does.
\<close>

datatype 'a limited = RateLimited nat | Passed 'a

definition rate_limit ::
  "platform \<Rightarrow> nat \<Rightarrow> pystr \<Rightarrow> 'a \<Rightarrow> pystr option \<Rightarrow> pystr option \<Rightarrow> nat \<Rightarrow> cache \<Rightarrow>
   'a limited \<times> cache" where
  "rate_limit P requests_per_minute view_name view_func x_forwarded_for remote_addr now c =
     (let ip = get_client_ip P x_forwarded_for remote_addr;
          cache_key = str ''rate_limit:'' @ view_name @ str '':'' @ ip;
          request_count = cache_get c now cache_key 0
      in if request_count \<ge> requests_per_minute then (RateLimited 60, c)
         else (Passed view_func, cache_set c now cache_key (request_count + 1) 60))"

definition public_rate_limit ::
  "platform \<Rightarrow> nat \<Rightarrow> pystr \<Rightarrow> 'a \<Rightarrow> pystr option \<Rightarrow> pystr option \<Rightarrow> nat \<Rightarrow> cache \<Rightarrow>
   'a limited \<times> cache" where
  "public_rate_limit P requests_per_minute view_name view_func x_forwarded_for remote_addr
       now c =
     (let ip = get_client_ip P x_forwarded_for remote_addr;
          cache_key = str ''public_rate_limit:'' @ view_name @ str '':'' @ ip;
          request_count = cache_get c now cache_key 0
      in if request_count \<ge> requests_per_minute then (RateLimited 60, c)
         else (Passed view_func, cache_set c now cache_key (request_count + 1) 60))"

text \<open>The key under which a wrapper counts.\<close>

definition limiter_key ::
  "platform \<Rightarrow> string \<Rightarrow> pystr \<Rightarrow> pystr option \<Rightarrow> pystr option \<Rightarrow> pystr" where
  "limiter_key P tag view_name x_forwarded_for remote_addr =
     str tag @ view_name @ str '':'' @ get_client_ip P x_forwarded_for remote_addr"

definition full_cache :: cache where
  "full_cache = Map.empty(str ''rate_limit:api_search_voters:10.0.0.7'' \<mapsto> (2, 100))"

section \<open>The derived search text and the import\<close>

text \<open>\<open>x or ''\<close> for a text that may be absent, and \<open>sep.join(parts)\<close>.\<close>

definition or_empty :: "pystr option \<Rightarrow> pystr" where
  "or_empty f = (case f of None \<Rightarrow> [] | Some s \<Rightarrow> s)"

fun join_str :: "pystr \<Rightarrow> pystr list \<Rightarrow> pystr" where
  "join_str sep [] = []"
| "join_str sep [x] = x"
| "join_str sep (x # y # ys) = x @ sep @ join_str sep (y # ys)"

definition build_search_text :: "platform \<Rightarrow> voter \<Rightarrow> pystr" where
  "build_search_text P v =
     (let parts = [or_empty (serial v), or_empty (name v), or_empty (father v),
                   or_empty (mother v), or_empty (address v), or_empty (voter_no v),
                   or_empty (profession v)]
      in lower P (join_str (str '' '') (filter (\<lambda>p. p \<noteq> []) parts)))"

text \<open>
  \<open>Voter.save()\<close> without \<open>update_fields\<close>: the search text is built, then the row is
  written, over the row of the same key if there is one.
\<close>

definition save :: "platform \<Rightarrow> voter \<Rightarrow> voter list \<Rightarrow> voter list" where
  "save P v rows =
     (let v' = v\<lparr>search_text := Some (build_search_text P v)\<rparr>
      in if pk v \<in> pk ` set rows then map (\<lambda>r. if pk r = pk v then v' else r) rows
         else rows @ [v'])"

text \<open>
  The import: the values read from one row of a sheet, the object built from them (a
  field that is not given keeps its default: \<open>status\<close> is \<open>present\<close>, \<open>search_text\<close>
  is absent), and \<open>bulk_create\<close>, which inserts the objects as they are, with the keys
  the database hands out (\<open>first_key\<close> and its successors) and the time of creation, and
  does not call \<open>save\<close>.
\<close>

record sheet_row =
  row_serial :: "pystr option"
  row_name :: "pystr option"
  row_voter_no :: "pystr option"
  row_father :: "pystr option"
  row_mother :: "pystr option"
  row_profession :: "pystr option"
  row_dob :: "pystr option"
  row_address :: "pystr option"
  row_extra_data :: "(pystr \<times> json) list"

definition new_voter :: "nat \<Rightarrow> pystr \<Rightarrow> pystr \<Rightarrow> sheet_row \<Rightarrow> voter" where
  "new_voter category gender_found excel_name r =
     \<lparr>pk = 0, category_id = category, serial = row_serial r, name = row_name r,
      voter_no = row_voter_no r, father = row_father r, mother = row_mother r,
      profession = row_profession r, dob = row_dob r, address = row_address r,
      gender = gender_found, status = str ''present'', source_file = excel_name,
      extra_data = row_extra_data r, search_text = None, created_at = 0\<rparr>"

definition bulk_create :: "nat \<Rightarrow> nat \<Rightarrow> voter list \<Rightarrow> voter list \<Rightarrow> voter list" where
  "bulk_create first_key now objs rows =
     rows @ map (\<lambda>(i, v). v\<lparr>pk := first_key + i, created_at := now\<rparr>) (enumerate 0 objs)"

definition process_excel_file ::
  "nat \<Rightarrow> pystr \<Rightarrow> pystr \<Rightarrow> nat \<Rightarrow> nat \<Rightarrow> sheet_row list \<Rightarrow> voter list \<Rightarrow> voter list" where
  "process_excel_file category gender_found excel_name first_key now sheet rows =
     bulk_create first_key now (map (new_voter category gender_found excel_name) sheet) rows"

definition karim_row :: sheet_row where
  "karim_row =
     \<lparr>row_serial = Some (str ''1''), row_name = Some (str ''Karim''),
      row_voter_no = Some (str ''123''), row_father = None, row_mother = None,
      row_profession = None, row_dob = None, row_address = None, row_extra_data = []\<rparr>"

section \<open>Suggestions\<close>

text \<open>
  The field a suggestion request asks for: the parameter stripped and lowered, and
  \<open>name\<close> for anything outside the allowed list.
\<close>

definition allowed_fields :: "pystr list" where
  "allowed_fields = [str ''name'', str ''father'', str ''mother'', str ''address'']"

definition suggest_field :: "platform \<Rightarrow> pystr option \<Rightarrow> pystr" where
  "suggest_field P field_param =
     (let field = lower P (strip P (case field_param of None \<Rightarrow> str ''name'' | Some f \<Rightarrow> f))
      in if field \<notin> set allowed_fields then str ''name'' else field)"

definition field_of :: "pystr \<Rightarrow> voter \<Rightarrow> pystr option" where
  "field_of field v =
     (if field = str ''father'' then father v
      else if field = str ''mother'' then mother v
      else if field = str ''address'' then address v
      else name v)"

text \<open>
  A category looked up by the number a parameter stands for.
\<close>

definition get_category :: "int \<Rightarrow> category list \<Rightarrow> category option" where
  "get_category n cats = find (\<lambda>c. int (cid c) = n) cats"

text \<open>
  The category filter of a suggestion request, most specific first; the three
  parameters are the stripped texts, empty when not sent. A text that is no number
  raises. A voter area is matched as it is; a union counts with its children, an upazila
  with its children and their children, and a union or upazila that is not in the table
  filters nothing.
\<close>

definition suggestion_scope ::
  "platform \<Rightarrow> pystr \<Rightarrow> pystr \<Rightarrow> pystr \<Rightarrow> category list \<Rightarrow> voter list \<Rightarrow>
   error + voter list" where
  "suggestion_scope P voter_area_id union_id upazila_id cats rows =
     (if voter_area_id \<noteq> [] then
        (case str_int P voter_area_id of
           None \<Rightarrow> Inl ValueError
         | Some a \<Rightarrow> Inr (filter (\<lambda>v. int (category_id v) = a) rows))
      else if union_id \<noteq> [] then
        (case str_int P union_id of
           None \<Rightarrow> Inl ValueError
         | Some u \<Rightarrow>
             (case get_category u cats of
                Some union_category \<Rightarrow>
                  (let child_ids = map (\<lambda>c. int (cid c)) (children cats union_category) @ [u]
                   in Inr (filter (\<lambda>v. int (category_id v) \<in> set child_ids) rows))
              | None \<Rightarrow> Inr rows))
      else if upazila_id \<noteq> [] then
        (case str_int P upazila_id of
           None \<Rightarrow> Inl ValueError
         | Some z \<Rightarrow>
             (case get_category z cats of
                Some upazila_category \<Rightarrow>
                  (let union_ids = map cid (children cats upazila_category);
                       voter_area_ids =
                         map cid
                           (sort_key full_path
                              (filter (\<lambda>c. parent c \<in> Some ` set union_ids) cats));
                       all_ids = map int (union_ids @ voter_area_ids) @ [z]
                   in Inr (filter (\<lambda>v. int (category_id v) \<in> set all_ids) rows))
              | None \<Rightarrow> Inr rows))
      else Inr rows)"

text \<open>
  \<open>values_list(field, flat=True).distinct()\<close> on the voter table, whose rows come
  newest first: the default ordering column takes part in \<open>distinct\<close>, so two rows give
  one value only when they agree in the field and in \<open>created_at\<close>.
\<close>

definition newest_first :: "voter list \<Rightarrow> voter list" where
  "newest_first rows = sort_key (\<lambda>v. - int (created_at v)) rows"

definition distinct_values :: "pystr \<Rightarrow> voter list \<Rightarrow> pystr option list" where
  "distinct_values field rows =
     map fst (remdups (map (\<lambda>v. (field_of field v, created_at v)) (newest_first rows)))"

text \<open>
  The loop over the values: an empty or blank value is skipped, a value whose lowered
  form was seen is skipped, any other is remembered by its lowered form and appended
  stripped, and the loop ends when \<open>limit\<close> suggestions are there.
\<close>

fun dedupe_loop ::
  "platform \<Rightarrow> int \<Rightarrow> pystr list \<Rightarrow> pystr list \<Rightarrow> pystr option list \<Rightarrow> pystr list" where
  "dedupe_loop P limit seen suggestions [] = suggestions"
| "dedupe_loop P limit seen suggestions (None # rest) = dedupe_loop P limit seen suggestions rest"
| "dedupe_loop P limit seen suggestions (Some val # rest) =
     (if val \<noteq> [] \<and> strip P val \<noteq> [] then
        (let value_lower = lower P val in
         if value_lower \<notin> set seen then
           (let appended = suggestions @ [strip P val] in
            if int (length appended) \<ge> limit then appended
            else dedupe_loop P limit (value_lower # seen) appended rest)
         else dedupe_loop P limit seen suggestions rest)
      else dedupe_loop P limit seen suggestions rest)"

text \<open>
  The sort key: 0 for a text whose lowered form starts with the lowered query, else 1;
  then the lowered text.
\<close>

definition suggestion_key :: "platform \<Rightarrow> pystr \<Rightarrow> pystr \<Rightarrow> nat \<times> pystr" where
  "suggestion_key P query_lower s =
     (if startswith_str (lower P s) query_lower then 0 else 1, lower P s)"

record suggest_response =
  suggestions :: "pystr list"
  field_echo :: "pystr option"
  suggest_query :: "pystr option"
  suggest_count :: "nat option"

text \<open>
  The view, with the cap on \<open>limit\<close> as its second argument: the two endpoints differ
  in the cap only. The limit is read before the length of the query is tested.
\<close>

definition suggestion_view ::
  "platform \<Rightarrow> int \<Rightarrow> pystr \<Rightarrow> pystr option \<Rightarrow> pystr option \<Rightarrow> pystr \<Rightarrow> pystr \<Rightarrow> pystr \<Rightarrow>
   category list \<Rightarrow> voter list \<Rightarrow> error + suggest_response" where
  "suggestion_view P cap q_param field_param limit_param upazila_param union_param
       voter_area_param cats rows =
     (let query = strip P q_param
      in case int_param P 10 limit_param of
           Inl e \<Rightarrow> Inl e
         | Inr n \<Rightarrow>
             let limit = min n cap;
                 upazila_id = strip P upazila_param;
                 union_id = strip P union_param;
                 voter_area_id = strip P voter_area_param
             in if length query < 2
                then Inr \<lparr>suggestions = [], field_echo = None, suggest_query = None,
                          suggest_count = None\<rparr>
                else
                  let field = suggest_field P field_param
                  in case suggestion_scope P voter_area_id union_id upazila_id cats rows of
                       Inl e \<Rightarrow> Inl e
                     | Inr scoped \<Rightarrow>
                         (case slice_upto
                                 (distinct_values field
                                    (filter (\<lambda>v. icontains P (field_of field v) query) scoped))
                                 (limit * 2) of
                            Inl e \<Rightarrow> Inl e
                          | Inr unique_values \<Rightarrow>
                              let found = dedupe_loop P limit [] [] unique_values;
                                  sorted_found =
                                    sort_key (suggestion_key P (lower P query)) found
                              in Inr \<lparr>suggestions = sorted_found, field_echo = Some field,
                                      suggest_query = Some query,
                                      suggest_count = Some (length sorted_found)\<rparr>))"




section \<open>The list view\<close>












section \<open>The claims in the words of the specification\<close>

text \<open>
  Equality, prefix and containment of a field that may be absent, without regard to
  case as the database folds it; an absent field matches nothing. \<open>contains_plain\<close> is
  containment with regard to case.
\<close>

definition ci_equal :: "platform \<Rightarrow> pystr option \<Rightarrow> pystr \<Rightarrow> bool" where
  "ci_equal P f q = (case f of None \<Rightarrow> False | Some s \<Rightarrow> fold_str P s = fold_str P q)"

definition ci_prefix :: "platform \<Rightarrow> pystr option \<Rightarrow> pystr \<Rightarrow> bool" where
  "ci_prefix P f q =
     (case f of None \<Rightarrow> False | Some s \<Rightarrow> prefix (fold_str P q) (fold_str P s))"

definition ci_contains :: "platform \<Rightarrow> pystr option \<Rightarrow> pystr \<Rightarrow> bool" where
  "ci_contains P f q =
     (case f of None \<Rightarrow> False | Some s \<Rightarrow> sublist (fold_str P q) (fold_str P s))"

definition contains_plain :: "pystr option \<Rightarrow> pystr \<Rightarrow> bool" where
  "contains_plain f q = (case f of None \<Rightarrow> False | Some s \<Rightarrow> sublist q s)"

text \<open>
  A platform on which digits have no case: the folding leaves every digit alone and
  folds no other character onto a digit.
\<close>

definition digits_caseless :: "platform \<Rightarrow> bool" where
  "digits_caseless P = (\<forall>c d. isdigit_cp P d \<longrightarrow> (like_fold P c = d) = (c = d))"

subsection \<open>Numeric search\<close>

text \<open>
  The score of a record for a numeric query: 100 when its \<open>voter_no\<close> is the query,
  else 90 when it starts with it, else 70 when it contains it, else 50. One row is
  ranked before another when its score is higher, or the scores agree and its tie-break
  field is not greater.
\<close>

definition spec_numeric_score :: "platform \<Rightarrow> pystr \<Rightarrow> voter \<Rightarrow> int" where
  "spec_numeric_score P q v =
     (case voter_no v of
        None \<Rightarrow> 50
      | Some s \<Rightarrow>
          if s = q then 100 else if prefix q s then 90
          else if ci_contains P (Some s) q then 70 else 50)"

definition ranked_before ::
  "(voter \<Rightarrow> int) \<Rightarrow> (voter \<Rightarrow> pystr option) \<Rightarrow> voter \<Rightarrow> voter \<Rightarrow> bool" where
  "ranked_before score tie a b =
     (score b < score a \<or> (score a = score b \<and> tie a \<le> tie b))"

definition numeric_example :: "voter list" where
  "numeric_example =
     [sample_voter 1 ''Rahim'' ''9123'' None None,
      sample_voter 2 ''Karim'' ''1234'' None None,
      sample_voter 3 ''Salma'' ''555'' None None,
      sample_voter 4 ''Jamal'' ''123'' None None,
      sample_voter 5 ''Nadia'' ''1230'' None None]"

subsection \<open>Text search\<close>

text \<open>
  Claim C1 on the authenticated endpoint: a record is a candidate of a text query when
  one of \<open>name\<close>, \<open>father\<close>, \<open>mother\<close>, \<open>voter_no\<close>, \<open>address\<close> contains the query or
  the stored \<open>search_text\<close> contains the lowered query; its score is the first tier that
  applies.
\<close>

definition spec_text_candidate :: "platform \<Rightarrow> pystr \<Rightarrow> voter \<Rightarrow> bool" where
  "spec_text_candidate P q v =
     (ci_contains P (name v) q \<or> ci_contains P (father v) q \<or> ci_contains P (mother v) q \<or>
      ci_contains P (voter_no v) q \<or> ci_contains P (address v) q \<or>
      ci_contains P (search_text v) (lower P q))"

definition spec_text_score :: "platform \<Rightarrow> pystr \<Rightarrow> voter \<Rightarrow> int" where
  "spec_text_score P q v =
     (if ci_equal P (name v) q then 100
      else if ci_prefix P (name v) q then 90
      else if ci_contains P (name v) q then 80
      else if ci_contains P (voter_no v) q then 75
      else if ci_prefix P (father v) q \<or> ci_prefix P (mother v) q then 70
      else if ci_contains P (father v) q \<or> ci_contains P (mother v) q then 60
      else if ci_contains P (address v) q then 50
      else 40)"

text \<open>
  The public endpoint as amended: \<open>address\<close> and \<open>search_text\<close> select nothing, and
  there is no tier between a parent's prefix match (70) and the baseline (40).
\<close>

definition public_text_candidate :: "platform \<Rightarrow> pystr \<Rightarrow> voter \<Rightarrow> bool" where
  "public_text_candidate P q v =
     (ci_contains P (name v) q \<or> ci_contains P (father v) q \<or> ci_contains P (mother v) q \<or>
      ci_contains P (voter_no v) q)"

definition public_text_score :: "platform \<Rightarrow> pystr \<Rightarrow> voter \<Rightarrow> int" where
  "public_text_score P q v =
     (if ci_equal P (name v) q then 100
      else if ci_prefix P (name v) q then 90
      else if ci_contains P (name v) q then 80
      else if ci_contains P (voter_no v) q then 75
      else if ci_prefix P (father v) q \<or> ci_prefix P (mother v) q then 70
      else 40)"

definition text_example :: "voter list" where
  "text_example =
     [sample_voter 1 ''Rahim'' ''111'' (Some ''Abdul Karim'') None,
      sample_voter 2 ''Karim Uddin'' ''456'' None None,
      sample_voter 3 ''Salma'' ''555'' None (Some ''Karimganj''),
      sample_voter 4 ''Karim'' ''123'' None None,
      sample_voter 5 ''Nadia'' ''777'' None None]"

section \<open>Verified properties\<close>

subsection \<open>Texts\<close>

lemma str_contains_sublist: "str_contains s q = sublist q s"
  by (induction s) (simp_all add: sublist_Cons_right)

lemma iexact_spec: "iexact P f q = ci_equal P f q"
  by (simp add: iexact_def ci_equal_def)

lemma istartswith_spec: "istartswith P f q = ci_prefix P f q"
  by (simp add: istartswith_def ci_prefix_def startswith_str_def split: option.split)

lemma icontains_spec: "icontains P f q = ci_contains P f q"
  by (simp add: icontains_def ci_contains_def str_contains_sublist split: option.split)

lemma ci_contains_None: "\<not> ci_contains P None q"
  by (simp add: ci_contains_def)

lemma fold_Cons: "fold_str P (c # s) = like_fold P c # fold_str P s"
  by (simp add: fold_str_def)

lemma fold_digits:
  "digits_caseless P \<Longrightarrow> list_all (isdigit_cp P) q \<Longrightarrow> fold_str P q = q"
  by (induction q) (auto simp: fold_str_def digits_caseless_def)

lemma prefix_fold_digits:
  "digits_caseless P \<Longrightarrow> list_all (isdigit_cp P) q \<Longrightarrow>
   prefix q (fold_str P s) \<longleftrightarrow> prefix q s"
proof (induction q arbitrary: s)
  case Nil
  then show ?case by simp
next
  case (Cons d q)
  show ?case
  proof (cases s)
    case Nil
    then show ?thesis by (simp add: fold_str_def)
  next
    case (Cons c s')
    have d: "isdigit_cp P d" and q: "list_all (isdigit_cp P) q"
      using Cons.prems by simp_all
    have "like_fold P c = d \<longleftrightarrow> c = d"
      using Cons.prems(1) d by (simp add: digits_caseless_def)
    moreover have "prefix q (fold_str P s') \<longleftrightarrow> prefix q s'"
      using Cons.prems(1) q by (rule Cons.IH)
    ultimately show ?thesis
      using Cons by (auto simp: fold_Cons)
  qed
qed

lemma sublist_fold_digits:
  "digits_caseless P \<Longrightarrow> list_all (isdigit_cp P) q \<Longrightarrow>
   sublist q (fold_str P s) \<longleftrightarrow> sublist q s"
proof (induction s)
  case Nil
  then show ?case by (simp add: fold_str_def)
next
  case (Cons c s)
  have "prefix q (fold_str P (c # s)) \<longleftrightarrow> prefix q (c # s)"
    using Cons.prems by (rule prefix_fold_digits)
  then show ?case
    using Cons by (simp add: sublist_Cons_right fold_Cons)
qed

lemma ci_contains_digits:
  "digits_caseless P \<Longrightarrow> isdigit P q \<Longrightarrow> ci_contains P f q = contains_plain f q"
  by (simp add: ci_contains_def contains_plain_def isdigit_def fold_digits sublist_fold_digits
      split: option.split)

lemma ascii_digits_caseless: "digits_caseless ascii"
  by (auto simp: digits_caseless_def ascii_def ascii_digit_def ascii_lower_def)

lemmas ascii_eval =
  str_def ascii_def ascii_digit_def ascii_space_def ascii_lower_def ascii_int_def

lemma sorted_key_ranked:
  assumes "sorted (map (\<lambda>v. (- score v, tie v)) rows)" and "i < j" and "j < length rows"
  shows "ranked_before score tie (rows ! i) (rows ! j)"
proof -
  have "map (\<lambda>v. (- score v, tie v)) rows ! i \<le> map (\<lambda>v. (- score v, tie v)) rows ! j"
    using assms by (intro sorted_nth_mono) simp_all
  then show ?thesis
    using assms by (auto simp: ranked_before_def less_eq_prod_def)
qed

lemma sorted_take_map: "sorted (map f xs) \<Longrightarrow> sorted (map f (take k xs))"
  by (simp add: take_map [symmetric] sorted_wrt_take)

lemma ranked_higher_first:
  assumes "\<And>i j. i < j \<Longrightarrow> j < length rows \<Longrightarrow> ranked_before score tie (rows ! i) (rows ! j)"
    and "i < length rows" and "j < length rows" and "score (rows ! j) < score (rows ! i)"
  shows "i < j"
proof (rule ccontr)
  assume "\<not> i < j"
  with assms(4) have "j < i" by (cases "i = j") auto
  from assms(1) [OF this assms(2)] assms(4) show False
    by (auto simp: ranked_before_def)
qed

subsection \<open>Numeric search\<close>

lemma numeric_relevance_spec: "numeric_relevance P q v = spec_numeric_score P q v"
  by (simp add: numeric_relevance_def spec_numeric_score_def exact_def startswith_def
      startswith_str_def icontains_spec ci_contains_None split: option.split)

lemma numeric_queryset_set:
  "set (numeric_queryset P q store) = {v \<in> set store. ci_contains P (voter_no v) q}"
  by (simp add: numeric_queryset_def icontains_spec)

lemma numeric_queryset_sorted:
  "sorted (map (\<lambda>v. (- numeric_relevance P q v, voter_no v)) (numeric_queryset P q store))"
  using sorted_sort_key [of "numeric_key P q" "filter (\<lambda>v. icontains P (voter_no v) q) store"]
  by (simp add: numeric_queryset_def numeric_key_def [abs_def])

lemma numeric_rows_ranked:
  assumes "i < j" and "j < length (take k (numeric_queryset P q store))"
  shows "ranked_before (numeric_relevance P q) voter_no
           (take k (numeric_queryset P q store) ! i) (take k (numeric_queryset P q store) ! j)"
  by (rule sorted_key_ranked [OF sorted_take_map [OF numeric_queryset_sorted] assms])

lemma api_search_voters_numeric:
  assumes "isdigit P query" and "strip P q_param = query"
    and "int_param P 15 limit_param = Inr n" and "0 \<le> n"
  shows "api_search_voters P q_param limit_param store =
           Inr \<lparr>voters = take (nat (min n 50)) (numeric_queryset P query store),
                count = length (take (nat (min n 50)) (numeric_queryset P query store)),
                query_echo = query,
                has_more = Some (int (length (take (nat (min n 50))
                                   (numeric_queryset P query store))) = min n 50)\<rparr>"
proof -
  have "query \<noteq> []"
    using assms(1) by (simp add: isdigit_def)
  with assms show ?thesis
    by (simp add: api_search_voters_def Let_def slice_upto_def)
qed

lemma public_api_search_voters_numeric:
  assumes "isdigit P query" and "strip P q_param = query"
    and "int_param P 10 limit_param = Inr m" and "0 \<le> m" and "2 \<le> length query"
  shows "public_api_search_voters P q_param limit_param store =
           Inr \<lparr>voters = take (nat (min m 20)) (numeric_queryset P query store),
                count = length (take (nat (min m 20)) (numeric_queryset P query store)),
                query_echo = query,
                has_more = Some (int (length (take (nat (min m 20))
                                   (numeric_queryset P query store))) = min m 20)\<rparr>"
  using assms by (simp add: public_api_search_voters_def Let_def slice_upto_def)

lemma public_api_search_voters_short:
  assumes "strip P q_param = query" and "int_param P 10 limit_param = Inr m"
    and "length query < 2"
  shows "public_api_search_voters P q_param limit_param store =
           Inr \<lparr>voters = [], count = 0, query_echo = query, has_more = None\<rparr>"
  using assms by (simp add: public_api_search_voters_def Let_def)

text \<open>
  Claim C3, amended. For a query of digits only, sent with no limit or with a limit that
  is a non-negative integer, the authenticated endpoint answers with the first \<open>limit\<close>
  rows of the numeric query set, and so does the public endpoint for a query of two
  characters or more; a shorter query gets the empty answer from the public endpoint.
  The rows of the query set are exactly the records whose \<open>voter_no\<close> contains the query
  as the database matches it, which on a platform where digits have no case is plain
  containment; the relevance of a record is 100 for an exact \<open>voter_no\<close>, else 90 for a
  prefix, else 70 for a substring, else 50; and the rows are in descending order of
  score, ascending \<open>voter_no\<close> among equal scores, so that a row with a higher score
  (exact above prefix-only above substring-only) always stands first.
\<close>

theorem numeric_search_by_voter_no:
  assumes dig: "isdigit P query" and q: "strip P q_param = query"
    and la: "int_param P 15 limit_param = Inr n" and n0: "0 \<le> n"
    and lp: "int_param P 10 limit_param = Inr m" and m0: "0 \<le> m"
  shows "api_search_voters P q_param limit_param store =
           Inr \<lparr>voters = take (nat (min n 50)) (numeric_queryset P query store),
                count = length (take (nat (min n 50)) (numeric_queryset P query store)),
                query_echo = query,
                has_more = Some (int (length (take (nat (min n 50))
                                   (numeric_queryset P query store))) = min n 50)\<rparr> \<and>
         (2 \<le> length query \<longrightarrow>
          public_api_search_voters P q_param limit_param store =
            Inr \<lparr>voters = take (nat (min m 20)) (numeric_queryset P query store),
                 count = length (take (nat (min m 20)) (numeric_queryset P query store)),
                 query_echo = query,
                 has_more = Some (int (length (take (nat (min m 20))
                                    (numeric_queryset P query store))) = min m 20)\<rparr>) \<and>
         (length query < 2 \<longrightarrow>
          public_api_search_voters P q_param limit_param store =
            Inr \<lparr>voters = [], count = 0, query_echo = query, has_more = None\<rparr>) \<and>
         set (numeric_queryset P query store) =
           {v \<in> set store. ci_contains P (voter_no v) query} \<and>
         (digits_caseless P \<longrightarrow>
          set (numeric_queryset P query store) =
            {v \<in> set store. contains_plain (voter_no v) query}) \<and>
         (\<forall>v. numeric_relevance P query v = spec_numeric_score P query v) \<and>
         (\<forall>k i j. i < j \<and> j < length (take k (numeric_queryset P query store)) \<longrightarrow>
            ranked_before (spec_numeric_score P query) voter_no
              (take k (numeric_queryset P query store) ! i)
              (take k (numeric_queryset P query store) ! j)) \<and>
         (\<forall>k i j. i < length (take k (numeric_queryset P query store)) \<and>
            j < length (take k (numeric_queryset P query store)) \<and>
            spec_numeric_score P query (take k (numeric_queryset P query store) ! j)
              < spec_numeric_score P query (take k (numeric_queryset P query store) ! i) \<longrightarrow>
            i < j)"
proof -
  note auth = api_search_voters_numeric [OF dig q la n0, of store]
  have pub: "2 \<le> length query \<longrightarrow>
          public_api_search_voters P q_param limit_param store =
            Inr \<lparr>voters = take (nat (min m 20)) (numeric_queryset P query store),
                 count = length (take (nat (min m 20)) (numeric_queryset P query store)),
                 query_echo = query,
                 has_more = Some (int (length (take (nat (min m 20))
                                    (numeric_queryset P query store))) = min m 20)\<rparr>"
    using public_api_search_voters_numeric [OF dig q lp m0] by blast
  have short: "length query < 2 \<longrightarrow>
          public_api_search_voters P q_param limit_param store =
            Inr \<lparr>voters = [], count = 0, query_echo = query, has_more = None\<rparr>"
    using public_api_search_voters_short [OF q lp] by blast
  note cand = numeric_queryset_set [of P query store]
  have plain: "digits_caseless P \<longrightarrow>
          set (numeric_queryset P query store) =
            {v \<in> set store. contains_plain (voter_no v) query}"
    using dig by (simp add: numeric_queryset_set ci_contains_digits)
  have eq: "numeric_relevance P query = spec_numeric_score P query"
    by (auto simp: numeric_relevance_spec)
  have score: "\<forall>v. numeric_relevance P query v = spec_numeric_score P query v"
    by (simp add: eq)
  have ranked: "ranked_before (spec_numeric_score P query) voter_no
           (take k (numeric_queryset P query store) ! i)
           (take k (numeric_queryset P query store) ! j)"
    if "i < j" "j < length (take k (numeric_queryset P query store))" for k i j
    using numeric_rows_ranked [OF that] by (simp add: eq)
  have first: "i < j"
    if "i < length (take k (numeric_queryset P query store))"
      "j < length (take k (numeric_queryset P query store))"
      "spec_numeric_score P query (take k (numeric_queryset P query store) ! j)
         < spec_numeric_score P query (take k (numeric_queryset P query store) ! i)" for k i j
  proof (rule ranked_higher_first [OF _ that])
    fix a b
    assume "a < b" and "b < length (take k (numeric_queryset P query store))"
    then show "ranked_before (spec_numeric_score P query) voter_no
           (take k (numeric_queryset P query store) ! a)
           (take k (numeric_queryset P query store) ! b)"
      by (rule ranked)
  qed
  have ranked': "\<forall>k i j. i < j \<and> j < length (take k (numeric_queryset P query store)) \<longrightarrow>
            ranked_before (spec_numeric_score P query) voter_no
              (take k (numeric_queryset P query store) ! i)
              (take k (numeric_queryset P query store) ! j)"
    using ranked by blast
  have first': "\<forall>k i j. i < length (take k (numeric_queryset P query store)) \<and>
            j < length (take k (numeric_queryset P query store)) \<and>
            spec_numeric_score P query (take k (numeric_queryset P query store) ! j)
              < spec_numeric_score P query (take k (numeric_queryset P query store) ! i) \<longrightarrow>
            i < j"
    using first by blast
  show ?thesis
    by (intro conjI auth pub short cand plain score ranked' first')
qed

lemma numeric_example_queryset:
  "numeric_queryset ascii (str ''123'') numeric_example =
     [sample_voter 4 ''Jamal'' ''123'' None None,
      sample_voter 5 ''Nadia'' ''1230'' None None,
      sample_voter 2 ''Karim'' ''1234'' None None,
      sample_voter 1 ''Rahim'' ''9123'' None None]"
  by code_simp

theorem numeric_search_by_voter_no_witness:
  "isdigit ascii (str ''123'') \<and> strip ascii (str '' 123 '') = str ''123'' \<and>
   api_search_voters ascii (str '' 123 '') (Some (str ''3'')) numeric_example =
     Inr \<lparr>voters = [sample_voter 4 ''Jamal'' ''123'' None None,
                    sample_voter 5 ''Nadia'' ''1230'' None None,
                    sample_voter 2 ''Karim'' ''1234'' None None],
          count = 3, query_echo = str ''123'', has_more = Some True\<rparr> \<and>
   public_api_search_voters ascii (str '' 123 '') (Some (str ''3'')) numeric_example =
     Inr \<lparr>voters = [sample_voter 4 ''Jamal'' ''123'' None None,
                    sample_voter 5 ''Nadia'' ''1230'' None None,
                    sample_voter 2 ''Karim'' ''1234'' None None],
          count = 3, query_echo = str ''123'', has_more = Some True\<rparr> \<and>
   set (numeric_queryset ascii (str ''123'') numeric_example) =
     {v \<in> set numeric_example. contains_plain (voter_no v) (str ''123'')}"
proof -
  have dig: "isdigit ascii (str ''123'')"
    by (simp add: isdigit_def ascii_eval)
  have q: "strip ascii (str '' 123 '') = str ''123''"
    by (simp add: strip_def ascii_eval)
  have la: "int_param ascii 15 (Some (str ''3'')) = Inr 3"
    and lp: "int_param ascii 10 (Some (str ''3'')) = Inr 3"
    by (simp_all add: int_param_def ascii_eval)
  have pos: "(0::int) \<le> 3"
    by simp
  have len: "2 \<le> length (str ''123'')"
    by (simp add: str_def)
  note c = numeric_search_by_voter_no [OF dig q la pos lp pos, of numeric_example]
  from c have "api_search_voters ascii (str '' 123 '') (Some (str ''3'')) numeric_example =
     Inr \<lparr>voters = [sample_voter 4 ''Jamal'' ''123'' None None,
                    sample_voter 5 ''Nadia'' ''1230'' None None,
                    sample_voter 2 ''Karim'' ''1234'' None None],
          count = 3, query_echo = str ''123'', has_more = Some True\<rparr>"
    by (simp add: numeric_example_queryset)
  moreover from c len
  have "public_api_search_voters ascii (str '' 123 '') (Some (str ''3'')) numeric_example =
     Inr \<lparr>voters = [sample_voter 4 ''Jamal'' ''123'' None None,
                    sample_voter 5 ''Nadia'' ''1230'' None None,
                    sample_voter 2 ''Karim'' ''1234'' None None],
          count = 3, query_echo = str ''123'', has_more = Some True\<rparr>"
    by (simp add: numeric_example_queryset)
  moreover from c ascii_digits_caseless
  have "set (numeric_queryset ascii (str ''123'') numeric_example) =
     {v \<in> set numeric_example. contains_plain (voter_no v) (str ''123'')}"
    by blast
  ultimately show ?thesis
    using dig q by blast
qed

text \<open>
  The claim as stated fails on the public endpoint for a query of one digit: the record
  whose \<open>voter_no\<close> is the query is not returned.
\<close>

theorem public_one_digit_query_counterexample:
  "isdigit ascii (str ''5'') \<and>
   contains_plain (voter_no (sample_voter 1 ''Jamal'' ''5'' None None)) (str ''5'') \<and>
   public_api_search_voters ascii (str ''5'') None [sample_voter 1 ''Jamal'' ''5'' None None] =
     Inr \<lparr>voters = [], count = 0, query_echo = str ''5'', has_more = None\<rparr> \<and>
   api_search_voters ascii (str ''5'') None [sample_voter 1 ''Jamal'' ''5'' None None] =
     Inr \<lparr>voters = [sample_voter 1 ''Jamal'' ''5'' None None], count = 1,
          query_echo = str ''5'', has_more = Some False\<rparr>"
  by code_simp

subsection \<open>Text search\<close>

lemma text_filter_spec: "text_filter P q v = spec_text_candidate P q v"
  by (simp add: text_filter_def spec_text_candidate_def icontains_spec)

lemma text_relevance_spec: "text_relevance P q v = spec_text_score P q v"
  by (simp add: text_relevance_def spec_text_score_def icontains_spec istartswith_spec
      iexact_spec)

lemma public_text_filter_spec: "public_text_filter P q v = public_text_candidate P q v"
  by (simp add: public_text_filter_def public_text_candidate_def icontains_spec)

lemma public_text_relevance_spec: "public_text_relevance P q v = public_text_score P q v"
  by (simp add: public_text_relevance_def public_text_score_def icontains_spec
      istartswith_spec iexact_spec)

lemma api_search_voters_text:
  assumes "\<not> isdigit P query" and "query \<noteq> []" and "strip P q_param = query"
    and "int_param P 15 limit_param = Inr n" and "0 \<le> n"
  shows "api_search_voters P q_param limit_param store =
           Inr \<lparr>voters = take (nat (min n 50)) (text_queryset P query store),
                count = length (take (nat (min n 50)) (text_queryset P query store)),
                query_echo = query,
                has_more = Some (int (length (take (nat (min n 50))
                                   (text_queryset P query store))) = min n 50)\<rparr>"
  using assms by (simp add: api_search_voters_def Let_def slice_upto_def)

lemma public_api_search_voters_text:
  assumes "\<not> isdigit P query" and "strip P q_param = query"
    and "int_param P 10 limit_param = Inr m" and "0 \<le> m" and "2 \<le> length query"
  shows "public_api_search_voters P q_param limit_param store =
           Inr \<lparr>voters = take (nat (min m 20)) (public_text_queryset P query store),
                count = length (take (nat (min m 20)) (public_text_queryset P query store)),
                query_echo = query,
                has_more = Some (int (length (take (nat (min m 20))
                                   (public_text_queryset P query store))) = min m 20)\<rparr>"
  using assms by (simp add: public_api_search_voters_def Let_def slice_upto_def)

text \<open>
  Claim C1, amended. For a text query (not empty, not digits only), sent with no limit
  or with a limit that is a non-negative integer: the authenticated endpoint answers
  with the first \<open>limit\<close> rows of a query set whose rows are exactly the records where
  \<open>name\<close>, \<open>father\<close>, \<open>mother\<close>, \<open>voter_no\<close> or \<open>address\<close> contains the query, or
  \<open>search_text\<close> contains the lowered query, without regard to case, each scored by
  the first tier of 100, 90, 80, 75, 70, 60, 50, 40 that applies. The public endpoint
  answers a query of two characters or more with the first \<open>limit\<close> rows of a query
  set whose rows are exactly the records where \<open>name\<close>, \<open>father\<close>, \<open>mother\<close> or
  \<open>voter_no\<close> contains the query, scored by the tiers 100, 90, 80, 75, 70, else 40, and
  a shorter query with the empty answer.
\<close>

theorem text_search_tiers:
  assumes nondig: "\<not> isdigit P query" and ne: "query \<noteq> []" and q: "strip P q_param = query"
    and la: "int_param P 15 limit_param = Inr n" and n0: "0 \<le> n"
    and lp: "int_param P 10 limit_param = Inr m" and m0: "0 \<le> m"
  shows "api_search_voters P q_param limit_param store =
           Inr \<lparr>voters = take (nat (min n 50)) (text_queryset P query store),
                count = length (take (nat (min n 50)) (text_queryset P query store)),
                query_echo = query,
                has_more = Some (int (length (take (nat (min n 50))
                                   (text_queryset P query store))) = min n 50)\<rparr> \<and>
         set (text_queryset P query store) = {v \<in> set store. spec_text_candidate P query v} \<and>
         (\<forall>v. text_relevance P query v = spec_text_score P query v) \<and>
         (2 \<le> length query \<longrightarrow>
          public_api_search_voters P q_param limit_param store =
            Inr \<lparr>voters = take (nat (min m 20)) (public_text_queryset P query store),
                 count = length (take (nat (min m 20)) (public_text_queryset P query store)),
                 query_echo = query,
                 has_more = Some (int (length (take (nat (min m 20))
                                    (public_text_queryset P query store))) = min m 20)\<rparr>) \<and>
         (length query < 2 \<longrightarrow>
          public_api_search_voters P q_param limit_param store =
            Inr \<lparr>voters = [], count = 0, query_echo = query, has_more = None\<rparr>) \<and>
         set (public_text_queryset P query store) =
           {v \<in> set store. public_text_candidate P query v} \<and>
         (\<forall>v. public_text_relevance P query v = public_text_score P query v)"
proof -
  note auth = api_search_voters_text [OF nondig ne q la n0, of store]
  have pub: "2 \<le> length query \<longrightarrow>
          public_api_search_voters P q_param limit_param store =
            Inr \<lparr>voters = take (nat (min m 20)) (public_text_queryset P query store),
                 count = length (take (nat (min m 20)) (public_text_queryset P query store)),
                 query_echo = query,
                 has_more = Some (int (length (take (nat (min m 20))
                                    (public_text_queryset P query store))) = min m 20)\<rparr>"
    using public_api_search_voters_text [OF nondig q lp m0] by blast
  have short: "length query < 2 \<longrightarrow>
          public_api_search_voters P q_param limit_param store =
            Inr \<lparr>voters = [], count = 0, query_echo = query, has_more = None\<rparr>"
    using public_api_search_voters_short [OF q lp] by blast
  have cand: "set (text_queryset P query store) = {v \<in> set store. spec_text_candidate P query v}"
    by (simp add: text_queryset_def text_filter_spec)
  have score: "\<forall>v. text_relevance P query v = spec_text_score P query v"
    by (simp add: text_relevance_spec)
  have pcand: "set (public_text_queryset P query store) =
           {v \<in> set store. public_text_candidate P query v}"
    by (simp add: public_text_queryset_def public_text_filter_spec)
  have pscore: "\<forall>v. public_text_relevance P query v = public_text_score P query v"
    by (simp add: public_text_relevance_spec)
  show ?thesis
    by (intro conjI auth cand score pub short pcand pscore)
qed

lemma text_example_queryset:
  "text_queryset ascii (str ''karim'') text_example =
     [sample_voter 4 ''Karim'' ''123'' None None,
      sample_voter 2 ''Karim Uddin'' ''456'' None None,
      sample_voter 1 ''Rahim'' ''111'' (Some ''Abdul Karim'') None,
      sample_voter 3 ''Salma'' ''555'' None (Some ''Karimganj'')]"
  by code_simp

lemma text_example_public_queryset:
  "public_text_queryset ascii (str ''karim'') text_example =
     [sample_voter 4 ''Karim'' ''123'' None None,
      sample_voter 2 ''Karim Uddin'' ''456'' None None,
      sample_voter 1 ''Rahim'' ''111'' (Some ''Abdul Karim'') None]"
  by code_simp

theorem text_search_tiers_witness:
  "\<not> isdigit ascii (str ''karim'') \<and> strip ascii (str ''karim '') = str ''karim'' \<and>
   api_search_voters ascii (str ''karim '') None text_example =
     Inr \<lparr>voters = [sample_voter 4 ''Karim'' ''123'' None None,
                    sample_voter 2 ''Karim Uddin'' ''456'' None None,
                    sample_voter 1 ''Rahim'' ''111'' (Some ''Abdul Karim'') None,
                    sample_voter 3 ''Salma'' ''555'' None (Some ''Karimganj'')],
          count = 4, query_echo = str ''karim'', has_more = Some False\<rparr> \<and>
   public_api_search_voters ascii (str ''karim '') None text_example =
     Inr \<lparr>voters = [sample_voter 4 ''Karim'' ''123'' None None,
                    sample_voter 2 ''Karim Uddin'' ''456'' None None,
                    sample_voter 1 ''Rahim'' ''111'' (Some ''Abdul Karim'') None],
          count = 3, query_echo = str ''karim'', has_more = Some False\<rparr>"
proof -
  have nondig: "\<not> isdigit ascii (str ''karim'')"
    by (simp add: isdigit_def ascii_eval)
  have ne: "str ''karim'' \<noteq> []"
    by (simp add: str_def)
  have q: "strip ascii (str ''karim '') = str ''karim''"
    by (simp add: strip_def ascii_eval)
  have la: "int_param ascii 15 None = Inr 15" and lp: "int_param ascii 10 None = Inr 10"
    by (simp_all add: int_param_def)
  have n0: "(0::int) \<le> 15" and m0: "(0::int) \<le> 10"
    by simp_all
  have len: "2 \<le> length (str ''karim'')"
    by (simp add: str_def)
  note c = text_search_tiers [OF nondig ne q la n0 lp m0, of text_example]
  from c have "api_search_voters ascii (str ''karim '') None text_example =
     Inr \<lparr>voters = [sample_voter 4 ''Karim'' ''123'' None None,
                    sample_voter 2 ''Karim Uddin'' ''456'' None None,
                    sample_voter 1 ''Rahim'' ''111'' (Some ''Abdul Karim'') None,
                    sample_voter 3 ''Salma'' ''555'' None (Some ''Karimganj'')],
          count = 4, query_echo = str ''karim'', has_more = Some False\<rparr>"
    by (simp add: text_example_queryset)
  moreover from c len
  have "public_api_search_voters ascii (str ''karim '') None text_example =
     Inr \<lparr>voters = [sample_voter 4 ''Karim'' ''123'' None None,
                    sample_voter 2 ''Karim Uddin'' ''456'' None None,
                    sample_voter 1 ''Rahim'' ''111'' (Some ''Abdul Karim'') None],
          count = 3, query_echo = str ''karim'', has_more = Some False\<rparr>"
    by (simp add: text_example_public_queryset)
  ultimately show ?thesis
    using nondig q by blast
qed

text \<open>
  The claim as stated fails on the public endpoint: a record that matches in its address
  only is no candidate there and is not returned, and a record whose father's name
  contains the query without starting with it scores 40, not 60.
\<close>

theorem public_text_search_counterexample:
  "spec_text_candidate ascii (str ''karim'')
     (sample_voter 3 ''Salma'' ''555'' None (Some ''Karimganj'')) \<and>
   sample_voter 3 ''Salma'' ''555'' None (Some ''Karimganj'')
     \<notin> set (public_text_queryset ascii (str ''karim'') text_example) \<and>
   public_api_search_voters ascii (str ''karim'') None text_example =
     Inr \<lparr>voters = [sample_voter 4 ''Karim'' ''123'' None None,
                    sample_voter 2 ''Karim Uddin'' ''456'' None None,
                    sample_voter 1 ''Rahim'' ''111'' (Some ''Abdul Karim'') None],
          count = 3, query_echo = str ''karim'', has_more = Some False\<rparr> \<and>
   spec_text_score ascii (str ''karim'')
     (sample_voter 1 ''Rahim'' ''111'' (Some ''Abdul Karim'') None) = 60 \<and>
   public_text_relevance ascii (str ''karim'')
     (sample_voter 1 ''Rahim'' ''111'' (Some ''Abdul Karim'') None) = 40"
  by code_simp

subsection \<open>Minimum query length\<close>

text \<open>
  Claim C10, amended. A request to the public search endpoint whose limit is not sent or
  is an integer, and whose query is shorter than two characters once stripped, a single
  character included, gets the empty answer with count 0 whatever the table holds:
  nothing is matched or scored. The authenticated endpoint answers a query of one
  character, sent with no limit or a limit that is a non-negative integer, with the
  rows of its search.
\<close>

theorem public_search_needs_two_characters:
  assumes short: "length (strip P q_param) < 2"
    and lp: "int_param P 10 limit_param = Inr m"
  shows "public_api_search_voters P q_param limit_param store =
           Inr \<lparr>voters = [], count = 0, query_echo = strip P q_param, has_more = None\<rparr> \<and>
         (\<forall>n. strip P q_param \<noteq> [] \<and> int_param P 15 limit_param = Inr n \<and> 0 \<le> n \<longrightarrow>
            api_search_voters P q_param limit_param store =
              Inr \<lparr>voters =
                     take (nat (min n 50))
                       (if isdigit P (strip P q_param)
                        then numeric_queryset P (strip P q_param) store
                        else text_queryset P (strip P q_param) store),
                   count =
                     length
                       (take (nat (min n 50))
                          (if isdigit P (strip P q_param)
                           then numeric_queryset P (strip P q_param) store
                           else text_queryset P (strip P q_param) store)),
                   query_echo = strip P q_param,
                   has_more =
                     Some (int (length
                       (take (nat (min n 50))
                          (if isdigit P (strip P q_param)
                           then numeric_queryset P (strip P q_param) store
                           else text_queryset P (strip P q_param) store))) = min n 50)\<rparr>)"
proof (intro conjI allI impI)
  show "public_api_search_voters P q_param limit_param store =
           Inr \<lparr>voters = [], count = 0, query_echo = strip P q_param, has_more = None\<rparr>"
    using public_api_search_voters_short [OF refl lp short] .
next
  fix n
  assume "strip P q_param \<noteq> [] \<and> int_param P 15 limit_param = Inr n \<and> 0 \<le> n"
  then have ne: "strip P q_param \<noteq> []" and la: "int_param P 15 limit_param = Inr n"
    and n0: "0 \<le> n"
    by blast+
  from n0 have "\<not> min n 50 < 0"
    by simp
  with ne la show "api_search_voters P q_param limit_param store =
              Inr \<lparr>voters =
                     take (nat (min n 50))
                       (if isdigit P (strip P q_param)
                        then numeric_queryset P (strip P q_param) store
                        else text_queryset P (strip P q_param) store),
                   count =
                     length
                       (take (nat (min n 50))
                          (if isdigit P (strip P q_param)
                           then numeric_queryset P (strip P q_param) store
                           else text_queryset P (strip P q_param) store)),
                   query_echo = strip P q_param,
                   has_more =
                     Some (int (length
                       (take (nat (min n 50))
                          (if isdigit P (strip P q_param)
                           then numeric_queryset P (strip P q_param) store
                           else text_queryset P (strip P q_param) store))) = min n 50)\<rparr>"
    by (simp add: api_search_voters_def Let_def slice_upto_def)
qed

lemma one_letter_queryset:
  "text_queryset ascii (str ''k'') [sample_voter 4 ''Karim'' ''123'' None None] =
     [sample_voter 4 ''Karim'' ''123'' None None]"
  by code_simp

theorem public_search_needs_two_characters_witness:
  "length (strip ascii (str '' k '')) < 2 \<and>
   public_api_search_voters ascii (str '' k '') (Some (str ''5''))
       [sample_voter 4 ''Karim'' ''123'' None None] =
     Inr \<lparr>voters = [], count = 0, query_echo = str ''k'', has_more = None\<rparr> \<and>
   api_search_voters ascii (str '' k '') (Some (str ''5''))
       [sample_voter 4 ''Karim'' ''123'' None None] =
     Inr \<lparr>voters = [sample_voter 4 ''Karim'' ''123'' None None], count = 1,
          query_echo = str ''k'', has_more = Some False\<rparr>"
proof -
  have q: "strip ascii (str '' k '') = str ''k''"
    by (simp add: strip_def ascii_eval)
  have short: "length (strip ascii (str '' k '')) < 2"
    by (simp add: q) (simp add: str_def)
  have nondig: "\<not> isdigit ascii (str ''k'')"
    by (simp add: isdigit_def ascii_eval)
  have ne: "str ''k'' \<noteq> []"
    by (simp add: str_def)
  have la: "int_param ascii 15 (Some (str ''5'')) = Inr 5"
    and lp: "int_param ascii 10 (Some (str ''5'')) = Inr 5"
    by (simp_all add: int_param_def ascii_eval)
  note c = public_search_needs_two_characters
    [OF short lp, of "[sample_voter 4 ''Karim'' ''123'' None None]"]
  from c have "public_api_search_voters ascii (str '' k '') (Some (str ''5''))
       [sample_voter 4 ''Karim'' ''123'' None None] =
     Inr \<lparr>voters = [], count = 0, query_echo = str ''k'', has_more = None\<rparr>"
    by (simp add: q)
  moreover from c have "api_search_voters ascii (str '' k '') (Some (str ''5''))
       [sample_voter 4 ''Karim'' ''123'' None None] =
     Inr \<lparr>voters = [sample_voter 4 ''Karim'' ''123'' None None], count = 1,
          query_echo = str ''k'', has_more = Some False\<rparr>"
    by (simp add: q nondig ne la one_letter_queryset)
  ultimately show ?thesis
    using short by blast
qed

text \<open>
  The claim as stated fails for a request whose limit is no integer: the limit is read
  before the length of the query is tested, and the view raises.
\<close>

theorem public_short_query_bad_limit_counterexample:
  "length (strip ascii (str ''k'')) < 2 \<and>
   public_api_search_voters ascii (str ''k'') (Some (str ''abc''))
       [sample_voter 4 ''Karim'' ''123'' None None] = Inl ValueError"
  by code_simp

subsection \<open>Descendant resolution\<close>

declare get_category_descendants.simps [simp del]

lemmas descendants_step = get_category_descendants.simps(2)

lemma set_children: "set (children store c) = {x \<in> set store. parent x = Some (cid c)}"
  by (simp add: children_def)

lemma child_links_children: "(cid c, m) \<in> child_links store \<longleftrightarrow> m \<in> cid ` set (children store c)"
  by (auto simp: child_links_def set_children)

lemma finite_child_links: "finite (child_links store)"
proof -
  have "child_links store \<subseteq> (\<lambda>c. (the (parent c), cid c)) ` set store"
    by (force simp: child_links_def)
  then show ?thesis
    by (rule finite_surj [rotated]) simp
qed

lemma collect_Some:
  "collect recurse chs = Some ds \<Longrightarrow>
     (\<forall>ch \<in> set chs. recurse ch \<noteq> None) \<and>
     set ds = (\<Union>ch \<in> set chs. insert (cid ch) (set (the (recurse ch))))"
proof (induction chs arbitrary: ds)
  case Nil
  then show ?case by simp
next
  case (Cons ch chs)
  from Cons.prems obtain below others where
    b: "recurse ch = Some below" and m: "collect recurse chs = Some others"
    and ds: "ds = cid ch # below @ others"
    by (auto split: option.splits)
  from Cons.IH [OF m] b ds show ?case by auto
qed

lemma collect_total:
  "(\<forall>ch \<in> set chs. recurse ch \<noteq> None) \<Longrightarrow> \<exists>ds. collect recurse chs = Some ds"
  by (induction chs) auto

lemma collect_cong:
  "(\<forall>ch \<in> set chs. recurse ch = recurse' ch) \<Longrightarrow> collect recurse chs = collect recurse' chs"
  by (induction chs) (auto split: option.splits)

lemma descendants_Suc:
  "get_category_descendants depth store c = Some ds \<Longrightarrow>
   get_category_descendants (Suc depth) store c = Some ds"
proof (induction depth arbitrary: c ds)
  case 0
  then show ?case by (simp add: get_category_descendants.simps(1))
next
  case (Suc depth)
  from Suc.prems have run: "collect (get_category_descendants depth store) (children store c) = Some ds"
    by (simp only: descendants_step)
  have "\<forall>ch \<in> set (children store c).
          get_category_descendants depth store ch = get_category_descendants (Suc depth) store ch"
  proof
    fix ch
    assume "ch \<in> set (children store c)"
    with collect_Some [OF run] obtain below where
      "get_category_descendants depth store ch = Some below"
      by auto
    with Suc.IH [of ch below] show
      "get_category_descendants depth store ch = get_category_descendants (Suc depth) store ch"
      by simp
  qed
  from collect_cong [OF this] run
  have "collect (get_category_descendants (Suc depth) store) (children store c) = Some ds"
    by (simp only:)
  then show ?case by (simp only: descendants_step [of "Suc depth"])
qed

lemma descendants_add:
  "get_category_descendants depth store c = Some ds \<Longrightarrow>
   get_category_descendants (depth + k) store c = Some ds"
  by (induction k) (auto dest: descendants_Suc)

lemma descendants_mono:
  assumes "get_category_descendants depth store c = Some ds" and "depth \<le> depth'"
  shows "get_category_descendants depth' store c = Some ds"
  using descendants_add [OF assms(1), of "depth' - depth"] assms(2) by simp

lemma descendants_reach:
  "get_category_descendants depth store c = Some ds \<Longrightarrow>
   set ds = {m. (cid c, m) \<in> (child_links store)\<^sup>+}"
proof (induction depth arbitrary: c ds)
  case 0
  then show ?case by (simp add: get_category_descendants.simps(1))
next
  case (Suc depth)
  let ?r = "child_links store"
  from Suc.prems have run: "collect (get_category_descendants depth store) (children store c) = Some ds"
    by (simp only: descendants_step)
  note cs = collect_Some [OF run]
  have below: "set (the (get_category_descendants depth store ch)) = {m. (cid ch, m) \<in> ?r\<^sup>+}"
    if "ch \<in> set (children store c)" for ch
  proof -
    from cs that obtain b where "get_category_descendants depth store ch = Some b"
      by auto
    with Suc.IH [OF this] show ?thesis by simp
  qed
  have "set ds = (\<Union>ch \<in> set (children store c). insert (cid ch) {m. (cid ch, m) \<in> ?r\<^sup>+})"
    using cs below by simp
  also have "\<dots> = {m. (cid c, m) \<in> ?r\<^sup>+}"
  proof (rule set_eqI, rule iffI)
    fix m
    assume "m \<in> (\<Union>ch \<in> set (children store c). insert (cid ch) {m. (cid ch, m) \<in> ?r\<^sup>+})"
    then obtain ch where ch: "ch \<in> set (children store c)"
      and m: "m = cid ch \<or> (cid ch, m) \<in> ?r\<^sup>+"
      by auto
    from ch have "(cid c, cid ch) \<in> ?r"
      by (auto simp: child_links_children)
    with m have "(cid c, m) \<in> ?r\<^sup>+"
      by (auto intro: trancl_into_trancl2)
    then show "m \<in> {m. (cid c, m) \<in> ?r\<^sup>+}" by simp
  next
    fix m
    assume "m \<in> {m. (cid c, m) \<in> ?r\<^sup>+}"
    then have "(cid c, m) \<in> ?r\<^sup>+" by simp
    then obtain k where k: "(cid c, k) \<in> ?r" and km: "(k, m) \<in> ?r\<^sup>*"
      by (auto dest: tranclD)
    from k obtain ch where ch: "ch \<in> set (children store c)" and "k = cid ch"
      by (auto simp: child_links_children)
    with km have "m = cid ch \<or> (cid ch, m) \<in> ?r\<^sup>+"
      by (auto simp: rtrancl_eq_or_trancl)
    with ch show "m \<in> (\<Union>ch \<in> set (children store c). insert (cid ch) {m. (cid ch, m) \<in> ?r\<^sup>+})"
      by auto
  qed
  finally show ?case .
qed

lemma common_depth:
  "(\<forall>ch \<in> set chs. \<exists>d. get_category_descendants d store ch \<noteq> None) \<Longrightarrow>
   \<exists>d. \<forall>ch \<in> set chs. get_category_descendants d store ch \<noteq> None"
proof (induction chs)
  case Nil
  then show ?case by simp
next
  case (Cons ch chs)
  then obtain d1 d2 where d1: "get_category_descendants d1 store ch \<noteq> None"
    and d2: "\<forall>x \<in> set chs. get_category_descendants d2 store x \<noteq> None"
    by auto
  have up: "get_category_descendants (max d1 d2) store x \<noteq> None"
    if "get_category_descendants d store x \<noteq> None" and "d \<le> max d1 d2" for d x
  proof -
    from that(1) obtain ds where "get_category_descendants d store x = Some ds"
      by auto
    from descendants_mono [OF this that(2)] show ?thesis by simp
  qed
  have "\<forall>x \<in> set (ch # chs). get_category_descendants (max d1 d2) store x \<noteq> None"
    using up [OF d1] d2 up [of d2] by auto
  then show ?case ..
qed

lemma descendants_terminate:
  assumes "acyclic (child_links store)"
  shows "\<exists>depth ds. get_category_descendants depth store c = Some ds"
proof -
  have wf: "wf ((child_links store)\<inverse>)"
    using finite_child_links assms by (rule finite_acyclic_wf_converse)
  have "\<forall>c. cid c = i \<longrightarrow> (\<exists>depth ds. get_category_descendants depth store c = Some ds)" for i
    using wf
  proof (induction i rule: wf_induct_rule)
    case (less i)
    show ?case
    proof (intro allI impI)
      fix c :: category
      assume c: "cid c = i"
      have "\<forall>ch \<in> set (children store c). \<exists>d. get_category_descendants d store ch \<noteq> None"
      proof
        fix ch
        assume "ch \<in> set (children store c)"
        then have "(cid c, cid ch) \<in> child_links store"
          by (simp add: child_links_children)
        then have "(cid ch, i) \<in> (child_links store)\<inverse>"
          using c by simp
        from less.IH [OF this] show "\<exists>d. get_category_descendants d store ch \<noteq> None"
          by auto
      qed
      from common_depth [OF this] obtain d where
        "\<forall>ch \<in> set (children store c). get_category_descendants d store ch \<noteq> None" ..
      from collect_total [OF this] obtain ds where
        "collect (get_category_descendants d store) (children store c) = Some ds" ..
      then have "get_category_descendants (Suc d) store c = Some ds"
        by (simp only: descendants_step)
      then show "\<exists>depth ds. get_category_descendants depth store c = Some ds" by blast
    qed
  qed
  then show ?thesis by blast
qed

lemma acyclic_by_ids:
  assumes "\<forall>c \<in> set store. \<forall>p. parent c = Some p \<longrightarrow> p < cid c"
  shows "acyclic (child_links store)"
proof (rule acyclicI_order [where f = "\<lambda>i. - int i"])
  fix a b
  assume "(a, b) \<in> child_links store"
  with assms have "a < b"
    by (auto simp: child_links_def)
  then show "- int b < - int a" by simp
qed

lemma resolve_scope_mono:
  assumes "resolve_scope depth store c = Some ids" and "depth \<le> depth'"
  shows "resolve_scope depth' store c = Some ids"
proof -
  from assms(1) obtain ds where ds: "get_category_descendants depth store c = Some ds"
    and ids: "ids = ds @ [cid c]"
    by (auto simp: resolve_scope_def)
  from descendants_mono [OF ds assms(2)] ids show ?thesis
    by (simp add: resolve_scope_def)
qed

lemma leaf_descendants:
  "children store c = [] \<Longrightarrow> get_category_descendants (Suc depth) store c = Some []"
  by (simp add: descendants_step)

lemma cid_node: "cid (node i nm p path lv) = i"
  by (simp add: node_def)

text \<open>
  Claim C2. On a table whose child links are acyclic, the scope of a node is computed
  (from some recursion depth on, always with the same result); it holds the node and
  exactly the nodes reachable from it by child links; and for a node without children
  it is the node alone.
\<close>

theorem resolve_scope_reachable:
  assumes "acyclic (child_links store)"
  shows "\<exists>depth ids.
           (\<forall>depth' \<ge> depth. resolve_scope depth' store n = Some ids) \<and>
           set ids = insert (cid n) {m. (cid n, m) \<in> (child_links store)\<^sup>+} \<and>
           (children store n = [] \<longrightarrow> ids = [cid n])"
proof -
  from descendants_terminate [OF assms] obtain depth ds where
    ds: "get_category_descendants depth store n = Some ds"
    by blast
  have stable: "\<forall>depth' \<ge> depth. resolve_scope depth' store n = Some (ds @ [cid n])"
    using descendants_mono [OF ds] by (simp add: resolve_scope_def)
  have reach: "set (ds @ [cid n]) = insert (cid n) {m. (cid n, m) \<in> (child_links store)\<^sup>+}"
    using descendants_reach [OF ds] by simp
  have leaf: "children store n = [] \<longrightarrow> ds @ [cid n] = [cid n]"
  proof
    assume "children store n = []"
    then have "get_category_descendants (Suc depth) store n = Some []"
      by (rule leaf_descendants)
    moreover have "get_category_descendants (Suc depth) store n = Some ds"
      using ds by (rule descendants_Suc)
    ultimately show "ds @ [cid n] = [cid n]" by simp
  qed
  from stable reach leaf show ?thesis by blast
qed

lemma abc_tree_acyclic: "acyclic (child_links abc_tree)"
  by (rule acyclic_by_ids) (simp add: abc_tree_def node_def str_def)

lemma abc_tree_scope:
  "resolve_scope 3 abc_tree (node 1 ''A'' None ''A'' 0) = Some [2, 3, 1]"
  "resolve_scope 3 abc_tree (node 2 ''B'' (Some 1) ''A/B'' 1) = Some [3, 2]"
  "resolve_scope 3 abc_tree (node 3 ''C'' (Some 2) ''A/B/C'' 2) = Some [3]"
  by (simp_all add: resolve_scope_def eval_nat_numeral descendants_step children_def
      abc_tree_def node_def str_def)

theorem resolve_scope_reachable_witness:
  "acyclic (child_links abc_tree) \<and>
   resolve_scope 3 abc_tree (node 1 ''A'' None ''A'' 0) = Some [2, 3, 1] \<and>
   insert 1 {m. (1, m) \<in> (child_links abc_tree)\<^sup>+} = set [2, 3, 1] \<and>
   resolve_scope 3 abc_tree (node 2 ''B'' (Some 1) ''A/B'' 1) = Some [3, 2] \<and>
   insert 2 {m. (2, m) \<in> (child_links abc_tree)\<^sup>+} = set [3, 2]"
proof -
  have reach: "insert (cid c) {m. (cid c, m) \<in> (child_links abc_tree)\<^sup>+} = set ids"
    if "resolve_scope 3 abc_tree c = Some ids" for c ids
  proof -
    from resolve_scope_reachable [OF abc_tree_acyclic, of c] obtain depth ids' where
      st: "\<forall>depth' \<ge> depth. resolve_scope depth' abc_tree c = Some ids'"
      and r: "set ids' = insert (cid c) {m. (cid c, m) \<in> (child_links abc_tree)\<^sup>+}"
      by blast
    from st have "resolve_scope (max depth 3) abc_tree c = Some ids'" by simp
    moreover have "resolve_scope (max depth 3) abc_tree c = Some ids"
      using that by (rule resolve_scope_mono) simp
    ultimately show ?thesis using r by simp
  qed
  note r1 = reach [OF abc_tree_scope(1), unfolded cid_node]
  note r2 = reach [OF abc_tree_scope(2), unfolded cid_node]
  show ?thesis
    by (intro conjI abc_tree_acyclic abc_tree_scope(1) abc_tree_scope(2) r1 r2)
qed

text \<open>
  Claim C9. On every table whose child links are acyclic, of any depth, the collection of
  descendants returns: some recursion depth is enough, and so is every greater one.
\<close>

theorem descendants_return_on_trees:
  assumes "acyclic (child_links store)"
  shows "\<exists>depth ds. \<forall>depth' \<ge> depth. get_category_descendants depth' store c = Some ds"
proof -
  from descendants_terminate [OF assms] obtain depth ds where
    ds: "get_category_descendants depth store c = Some ds"
    by blast
  have "\<forall>depth' \<ge> depth. get_category_descendants depth' store c = Some ds"
    using descendants_mono [OF ds] by blast
  then show ?thesis by blast
qed

lemma deep_chain_acyclic: "acyclic (child_links deep_chain)"
  by (rule acyclic_by_ids) (simp add: deep_chain_def node_def str_def)

lemma deep_chain_descendants:
  "get_category_descendants 6 deep_chain (node 1 ''a'' None ''a'' 0) = Some [2, 3, 4, 5, 6]"
  by (simp add: eval_nat_numeral descendants_step children_def deep_chain_def node_def str_def)

theorem descendants_return_on_trees_witness:
  "acyclic (child_links deep_chain) \<and>
   (\<exists>depth. \<forall>depth' \<ge> depth.
      get_category_descendants depth' deep_chain (node 1 ''a'' None ''a'' 0) =
        Some [2, 3, 4, 5, 6])"
proof -
  from descendants_return_on_trees [OF deep_chain_acyclic, of "node 1 ''a'' None ''a'' 0"]
  obtain depth ds where
    st: "\<forall>depth' \<ge> depth. get_category_descendants depth' deep_chain (node 1 ''a'' None ''a'' 0) = Some ds"
    by blast
  then have "get_category_descendants (max depth 6) deep_chain (node 1 ''a'' None ''a'' 0) = Some ds"
    by simp
  moreover have "get_category_descendants (max depth 6) deep_chain (node 1 ''a'' None ''a'' 0)
      = Some [2, 3, 4, 5, 6]"
    using deep_chain_descendants by (rule descendants_mono) simp
  ultimately have "ds = [2, 3, 4, 5, 6]" by simp
  with st deep_chain_acyclic show ?thesis by blast
qed

subsection \<open>Status audit trail\<close>

lemma find_save_status:
  "find (\<lambda>v. pk v = key) rows = Some v \<Longrightarrow>
   find (\<lambda>v. pk v = key) (save_status key s rows) = Some (v\<lparr>status := s\<rparr>)"
  by (induction rows) (auto simp: save_status_def)

text \<open>
  Claim C4. For a voter that exists and a posted status that, once stripped, is one of
  the three valid ones: when it is the voter's current status, the tables are left as
  they are, no audit row is added, and the message queued is that the status is
  unchanged; when it differs, exactly one audit row is appended, with the voter's
  status before the call as its \<open>old_status\<close> and the requested one as its
  \<open>new_status\<close>, the voter's status is the requested one afterwards, and a success
  message is queued. This holds whatever the \<open>next\<close> parameter is; the answer is the
  redirect that \<open>next\<close> resolves to, or the error raised in resolving it, and with no
  \<open>next\<close> it is the redirect to the voter's page.
\<close>

theorem update_voter_status_audited:
  assumes found: "find (\<lambda>v. pk v = key) (voter_rows d) = Some v"
    and req: "requested = strip P (case status_param of None \<Rightarrow> [] | Some s \<Rightarrow> s)"
    and valid: "requested \<in> set (map fst STATUS_CHOICES)"
  shows "(requested = status v \<longrightarrow>
          update_voter_status P key status_param remarks_param next_param user xff addr now d =
            \<lparr>response = after_update P key next_param,
             queued = Some (Info, str ''Status unchanged.''), tables = d\<rparr>) \<and>
         (requested \<noteq> status v \<longrightarrow>
          update_voter_status P key status_param remarks_param next_param user xff addr now d =
            \<lparr>response = after_update P key next_param,
             queued =
               Some (Success,
                     str ''Voter status updated to ''
                       @ get_status_display (v\<lparr>status := requested\<rparr>) @ str ''.''),
             tables =
               d\<lparr>audit_rows := audit_rows d @
                    [\<lparr>voter_id = key, changed_by = Some user,
                      old_status = status v, new_status = requested,
                      remarks =
                        Some (strip P (case remarks_param of None \<Rightarrow> [] | Some s \<Rightarrow> s)),
                      changed_at = now,
                      ip_address = ip_column P (get_client_ip P xff addr)\<rparr>],
                  voter_rows := save_status key requested (voter_rows d)\<rparr>\<rparr> \<and>
          find (\<lambda>v. pk v = key) (save_status key requested (voter_rows d))
            = Some (v\<lparr>status := requested\<rparr>)) \<and>
         (next_param = None \<or> next_param = Some [] \<longrightarrow>
          after_update P key next_param = Inr (VoterDetail key))"
proof (intro conjI impI)
  assume "requested = status v"
  with found req valid
  show "update_voter_status P key status_param remarks_param next_param user xff addr now d =
            \<lparr>response = after_update P key next_param,
             queued = Some (Info, str ''Status unchanged.''), tables = d\<rparr>"
    by (simp add: update_voter_status_def get_voter_def Let_def)
next
  assume "requested \<noteq> status v"
  with found req valid
  show "update_voter_status P key status_param remarks_param next_param user xff addr now d =
            \<lparr>response = after_update P key next_param,
             queued =
               Some (Success,
                     str ''Voter status updated to ''
                       @ get_status_display (v\<lparr>status := requested\<rparr>) @ str ''.''),
             tables =
               d\<lparr>audit_rows := audit_rows d @
                    [\<lparr>voter_id = key, changed_by = Some user,
                      old_status = status v, new_status = requested,
                      remarks =
                        Some (strip P (case remarks_param of None \<Rightarrow> [] | Some s \<Rightarrow> s)),
                      changed_at = now,
                      ip_address = ip_column P (get_client_ip P xff addr)\<rparr>],
                  voter_rows := save_status key requested (voter_rows d)\<rparr>\<rparr>"
    by (simp add: update_voter_status_def get_voter_def Let_def)
next
  show "find (\<lambda>v. pk v = key) (save_status key requested (voter_rows d))
      = Some (v\<lparr>status := requested\<rparr>)"
    using found by (rule find_save_status)
next
  assume "next_param = None \<or> next_param = Some []"
  then show "after_update P key next_param = Inr (VoterDetail key)"
    by (auto simp: after_update_def)
qed

theorem update_voter_status_audited_witness:
  "update_voter_status ascii 4 (Some (str '' present'')) None None 9 None None 100
       status_example =
     \<lparr>response = Inr (VoterDetail 4), queued = Some (Info, str ''Status unchanged.''),
      tables = status_example\<rparr> \<and>
   update_voter_status ascii 4 (Some (str ''dead '')) None (Some (str ''foo'')) 9 None None
       100 status_example =
     \<lparr>response = Inl NoReverseMatch,
      queued = Some (Success, str ''Voter status updated to Dead.''),
      tables =
        \<lparr>voter_rows = [(sample_voter 4 ''Karim'' ''123'' None None)\<lparr>status := str ''dead''\<rparr>,
                        sample_voter 5 ''Nadia'' ''1230'' None None],
         audit_rows =
           [\<lparr>voter_id = 4, changed_by = Some 9, old_status = str ''present'',
             new_status = str ''dead'', remarks = Some [], changed_at = 100,
             ip_address = Some (str ''unknown'')\<rparr>]\<rparr>\<rparr>"
proof -
  let ?v = "sample_voter 4 ''Karim'' ''123'' None None"
  have found: "find (\<lambda>v. pk v = 4) (voter_rows status_example) = Some ?v"
    by (simp add: status_example_def sample_voter_def)
  have same: "str ''present'' = strip ascii (case Some (str '' present'') of None \<Rightarrow> [] | Some s \<Rightarrow> s)"
    by (simp add: strip_def ascii_eval)
  have other: "str ''dead'' = strip ascii (case Some (str ''dead '') of None \<Rightarrow> [] | Some s \<Rightarrow> s)"
    by (simp add: strip_def ascii_eval)
  have v1: "str ''present'' \<in> set (map fst STATUS_CHOICES)"
    and v2: "str ''dead'' \<in> set (map fst STATUS_CHOICES)"
    by (simp_all add: STATUS_CHOICES_def)
  have st: "status ?v = str ''present''"
    by (simp add: sample_voter_def)
  have ne: "str ''dead'' \<noteq> str ''present''"
    by (simp add: str_def)
  note a = update_voter_status_audited [OF found same v1, of None None 9 None None 100]
  note b = update_voter_status_audited
    [OF found other v2, of None "Some (str ''foo'')" 9 None None 100]
  from a st have "update_voter_status ascii 4 (Some (str '' present'')) None None 9 None None 100
       status_example =
     \<lparr>response = Inr (VoterDetail 4), queued = Some (Info, str ''Status unchanged.''),
      tables = status_example\<rparr>"
    by simp
  moreover from b st ne
  have "update_voter_status ascii 4 (Some (str ''dead '')) None (Some (str ''foo'')) 9 None None
       100 status_example =
     \<lparr>response = Inl NoReverseMatch,
      queued = Some (Success, str ''Voter status updated to Dead.''),
      tables =
        \<lparr>voter_rows = [?v\<lparr>status := str ''dead''\<rparr>,
                        sample_voter 5 ''Nadia'' ''1230'' None None],
         audit_rows =
           [\<lparr>voter_id = 4, changed_by = Some 9, old_status = str ''present'',
             new_status = str ''dead'', remarks = Some [], changed_at = 100,
             ip_address = Some (str ''unknown'')\<rparr>]\<rparr>\<rparr>"
    by (simp add: after_update_def resolve_url_def startswith_str_def status_example_def
        save_status_def sample_voter_def get_status_display_def STATUS_CHOICES_def
        get_client_ip_def ip_column_def strip_def ascii_eval)
  ultimately show ?thesis by blast
qed

subsection \<open>Rate limiter\<close>

lemma cache_get_set: "cache_get (cache_set c now key v 60) now key dflt = v"
  by (simp add: cache_get_def cache_set_def)

lemma cache_get_set_other:
  "key' \<noteq> key \<Longrightarrow> cache_get (cache_set c now key v t) now' key' dflt = cache_get c now' key' dflt"
  by (simp add: cache_get_def cache_set_def)

text \<open>
  Claim C5, amended. A call that is let through answers what the view answers and leaves
  the counter of its key one higher; a call that is rejected answers the rate-limited
  response and leaves the cache, and with it the counter, as it was. Counters under
  other keys are never touched.
\<close>

theorem rate_limit_counts_passed_calls:
  assumes auth: "k = limiter_key P ''rate_limit:'' view_name xff addr"
    and pub: "kp = limiter_key P ''public_rate_limit:'' view_name xff addr"
  shows "(cache_get c now k 0 < n \<longrightarrow>
          fst (rate_limit P n view_name view xff addr now c) = Passed view \<and>
          cache_get (snd (rate_limit P n view_name view xff addr now c)) now k 0
            = cache_get c now k 0 + 1) \<and>
         (n \<le> cache_get c now k 0 \<longrightarrow>
          rate_limit P n view_name view xff addr now c = (RateLimited 60, c)) \<and>
         (\<forall>k'. k' \<noteq> k \<longrightarrow>
          cache_get (snd (rate_limit P n view_name view xff addr now c)) now k' 0
            = cache_get c now k' 0) \<and>
         (cache_get c now kp 0 < n \<longrightarrow>
          fst (public_rate_limit P n view_name view xff addr now c) = Passed view \<and>
          cache_get (snd (public_rate_limit P n view_name view xff addr now c)) now kp 0
            = cache_get c now kp 0 + 1) \<and>
         (n \<le> cache_get c now kp 0 \<longrightarrow>
          public_rate_limit P n view_name view xff addr now c = (RateLimited 60, c)) \<and>
         (\<forall>k'. k' \<noteq> kp \<longrightarrow>
          cache_get (snd (public_rate_limit P n view_name view xff addr now c)) now k' 0
            = cache_get c now k' 0)"
  using assms
  by (simp add: rate_limit_def public_rate_limit_def limiter_key_def Let_def cache_get_set
      cache_get_set_other)

lemma example_key:
  "limiter_key ascii ''rate_limit:'' (str ''api_search_voters'') None (Some (str ''10.0.0.7''))
     = str ''rate_limit:api_search_voters:10.0.0.7''"
  "limiter_key ascii ''public_rate_limit:'' (str ''api_search_voters'') None
       (Some (str ''10.0.0.7''))
     = str ''public_rate_limit:api_search_voters:10.0.0.7''"
  by (simp_all add: limiter_key_def get_client_ip_def str_def)

lemma full_cache_count:
  "cache_get full_cache 50 (str ''rate_limit:api_search_voters:10.0.0.7'') 0 = 2"
  by (simp add: full_cache_def cache_get_def)

theorem rate_limit_counts_passed_calls_witness:
  "rate_limit ascii 2 (str ''api_search_voters'') True None (Some (str ''10.0.0.7'')) 50
       full_cache
     = (RateLimited 60, full_cache) \<and>
   fst (rate_limit ascii 2 (str ''api_search_voters'') True None (Some (str ''10.0.0.7'')) 50
          Map.empty)
     = Passed True \<and>
   cache_get
      (snd (rate_limit ascii 2 (str ''api_search_voters'') True None (Some (str ''10.0.0.7''))
              50 Map.empty))
      50 (str ''rate_limit:api_search_voters:10.0.0.7'') 0 = 1"
proof -
  note full = rate_limit_counts_passed_calls
    [OF example_key(1) [symmetric] example_key(2) [symmetric], of full_cache 50 2 True]
  note fresh = rate_limit_counts_passed_calls
    [OF example_key(1) [symmetric] example_key(2) [symmetric], of Map.empty 50 2 True]
  have zero: "cache_get Map.empty 50 (str ''rate_limit:api_search_voters:10.0.0.7'') 0 = 0"
    by (simp add: cache_get_def)
  from full full_cache_count
  have "rate_limit ascii 2 (str ''api_search_voters'') True None (Some (str ''10.0.0.7'')) 50
       full_cache
     = (RateLimited 60, full_cache)"
    by simp
  moreover from fresh zero
  have "fst (rate_limit ascii 2 (str ''api_search_voters'') True None (Some (str ''10.0.0.7''))
          50 Map.empty)
     = Passed True \<and>
   cache_get
      (snd (rate_limit ascii 2 (str ''api_search_voters'') True None (Some (str ''10.0.0.7''))
              50 Map.empty))
      50 (str ''rate_limit:api_search_voters:10.0.0.7'') 0 = 1"
    by simp
  ultimately show ?thesis by blast
qed

text \<open>
  The claim as stated fails: with the counter at the limit of 2, the call is rejected and
  the counter read afterwards is still 2.
\<close>

theorem rate_limit_rejected_not_counted:
  "cache_get full_cache 50 (str ''rate_limit:api_search_voters:10.0.0.7'') 0 = 2 \<and>
   fst (rate_limit ascii 2 (str ''api_search_voters'') True None (Some (str ''10.0.0.7'')) 50
          full_cache)
     = RateLimited 60 \<and>
   cache_get
      (snd (rate_limit ascii 2 (str ''api_search_voters'') True None (Some (str ''10.0.0.7''))
              50 full_cache))
      50 (str ''rate_limit:api_search_voters:10.0.0.7'') 0 = 2"
  by (simp add: rate_limit_def get_client_ip_def full_cache_def cache_get_def Let_def str_def)

subsection \<open>Derived search text\<close>

lemma build_search_text_ignores_search_text:
  "build_search_text P (v\<lparr>search_text := x\<rparr>) = build_search_text P v"
  by (simp add: build_search_text_def)

lemma save_sets_search_text:
  assumes "v' \<in> set (save P v rows)" and "pk v' = pk v"
  shows "search_text v' = Some (build_search_text P v)"
proof (cases "pk v \<in> pk ` set rows")
  case True
  with assms show ?thesis
    by (auto simp: save_def Let_def)
next
  case False
  then have "v' \<notin> set rows"
    using assms(2) by (metis imageI)
  with assms False show ?thesis
    by (auto simp: save_def Let_def)
qed

lemma save_stores_built_text:
  "\<exists>v' \<in> set (save P v rows). pk v' = pk v \<and> search_text v' = Some (build_search_text P v')"
proof (cases "pk v \<in> pk ` set rows")
  case True
  then obtain r where "r \<in> set rows" and "pk r = pk v"
    by auto
  then have "v\<lparr>search_text := Some (build_search_text P v)\<rparr> \<in> set (save P v rows)"
    using True by (force simp: save_def Let_def)
  then show ?thesis
    by (rule bexI [rotated]) (simp add: build_search_text_ignores_search_text)
next
  case False
  then have "v\<lparr>search_text := Some (build_search_text P v)\<rparr> \<in> set (save P v rows)"
    by (simp add: save_def Let_def)
  then show ?thesis
    by (rule bexI [rotated]) (simp add: build_search_text_ignores_search_text)
qed

text \<open>
  Claim C6 on the import path: a sheet row with serial 1, name Karim and number 123 is
  stored with no search text at all, where the claim wants \<open>1 karim 123\<close>.
\<close>

theorem import_leaves_search_text_unset:
  "map search_text
     (process_excel_file 1 (str ''male'') (str ''male.xlsx'') 1 7 [karim_row] []) = [None] \<and>
   map (build_search_text ascii)
     (process_excel_file 1 (str ''male'') (str ''male.xlsx'') 1 7 [karim_row] [])
     = [str ''1 karim 123'']"
  by (simp add: process_excel_file_def bulk_create_def new_voter_def karim_row_def
      build_search_text_def or_empty_def lower_def enumerate_eq_zip ascii_eval)

subsection \<open>Scope of a request\<close>
















subsection \<open>Suggestions\<close>

text \<open>
  The order of the suggestions: the answer is sorted by the key, so every text whose
  lowered form starts with the lowered query stands before every text whose lowered form
  does not, and within each group the lowered texts ascend.
\<close>

lemma suggestions_sorted:
  assumes "suggestion_view P cap q f l upazila_id union_id voter_area_id cats rows = Inr r"
  shows "sorted (map (suggestion_key P (lower P (strip P q))) (suggestions r))"
proof (cases "length (strip P q) < 2")
  case True
  with assms show ?thesis
    by (auto simp: suggestion_view_def Let_def split: sum.splits)
next
  case False
  with assms show ?thesis
    by (auto simp: suggestion_view_def Let_def split: sum.splits)
qed


end
